theory Spec2Isabelle
  imports Main
begin

section \<open>Strings\<close>

text \<open>
  A Python \<open>str\<close> is a sequence of code points. The model is \<open>string\<close>, each \<open>char\<close>
  standing for one code point below 256; text with larger code points is outside the model.
  The character classes below are Python's \<open>str.isspace\<close>, \<open>str.isupper\<close>, \<open>str.isdigit\<close>
  and \<open>str.lower\<close> on that range.
\<close>

definition isspace :: "char \<Rightarrow> bool" where
  "isspace c = (let n = (of_char c :: nat) in
     (9 \<le> n \<and> n \<le> 13) \<or> (28 \<le> n \<and> n \<le> 32) \<or> n = 133 \<or> n = 160)"

definition isupper :: "char \<Rightarrow> bool" where
  "isupper c = (let n = (of_char c :: nat) in
     (65 \<le> n \<and> n \<le> 90) \<or> (192 \<le> n \<and> n \<le> 214) \<or> (216 \<le> n \<and> n \<le> 222))"

definition isdigit :: "char \<Rightarrow> bool" where
  "isdigit c = (let n = (of_char c :: nat) in
     (48 \<le> n \<and> n \<le> 57) \<or> n = 178 \<or> n = 179 \<or> n = 185)"

definition lower_char :: "char \<Rightarrow> char" where
  "lower_char c = (if isupper c then char_of (of_char c + (32 :: nat)) else c)"

definition lower :: "string \<Rightarrow> string" where
  "lower s = map lower_char s"

text \<open>\<open>s.strip()\<close>: leading and trailing whitespace removed.\<close>

definition strip :: "string \<Rightarrow> string" where
  "strip s = rev (dropWhile isspace (rev (dropWhile isspace s)))"

text \<open>\<open>s.startswith("@")\<close>.\<close>

fun startswith_at :: "string \<Rightarrow> bool" where
  "startswith_at [] = False"
| "startswith_at (c # cs) = (c = CHR ''@'')"

text \<open>
  \<open>s.split(" ", 1)\<close>: the text is cut at its first space; a text without a space comes
  back as the only part.
\<close>

definition split_space1 :: "string \<Rightarrow> string list" where
  "split_space1 s =
     (if CHR '' '' \<in> set s
      then [takeWhile (\<lambda>c. c \<noteq> CHR '' '') s, tl (dropWhile (\<lambda>c. c \<noteq> CHR '' '') s)]
      else [s])"

text \<open>Decimal rendering of a count, as an f-string renders an \<open>int\<close>.\<close>

definition digit_char :: "nat \<Rightarrow> char" where
  "digit_char d = char_of (48 + d)"

fun str_nat :: "nat \<Rightarrow> string" where
  "str_nat n = (if n < 10 then [digit_char n] else str_nat (n div 10) @ [digit_char (n mod 10)])"

text \<open>\<open>", ".join(xs)\<close>.\<close>

fun join_comma :: "string list \<Rightarrow> string" where
  "join_comma [] = []"
| "join_comma [x] = x"
| "join_comma (x # y # ys) = x @ '', '' @ join_comma (y # ys)"

section \<open>The store\<close>

text \<open>
  The tables \<open>users(username, password, active)\<close> and
  \<open>messages(messageid, receiver, sender, message, datetime, isread)\<close>, as the statements of
  the server read and write them. A statement compares strings by equality of their
  characters. Rows are kept in insertion order. A handler runs alone on the store, from
  its first statement to its last. The statements themselves succeed: the \<open>except\<close> branch
  of a handler, taken when the store raises, is modelled where a property speaks of it
  (\<open>SearchUsers\<close>) and left out elsewhere.
\<close>

record user =
  username :: string
  password :: string
  active :: bool

record timestamp =
  year :: nat
  month :: nat
  day :: nat
  hour :: nat
  minute :: nat
  second :: nat

record msg =
  messageid :: nat
  receiver :: string
  sender :: string
  message :: string
  datetime :: timestamp
  isread :: bool

text \<open>
  Modelled from the spec: the table declarations are not part of the sources. The
  message id is "monotonically increasing, assigned by store", so the store carries the
  next id to hand out; the timestamp of a new row is the time of the insertion, passed
  to the insertion by its caller.
\<close>

record store =
  users :: "user list"
  messages :: "msg list"
  next_messageid :: nat

text \<open>\<open>m['datetime'].strftime("%Y-%m-%d %H:%M:%S")\<close>.\<close>

definition pad2 :: "nat \<Rightarrow> string" where
  "pad2 n = (if n < 10 then CHR ''0'' # str_nat n else str_nat n)"

definition pad4 :: "nat \<Rightarrow> string" where
  "pad4 n = replicate (4 - length (str_nat n)) CHR ''0'' @ str_nat n"

definition strftime :: "timestamp \<Rightarrow> string" where
  "strftime t = pad4 (year t) @ ''-'' @ pad2 (month t) @ ''-'' @ pad2 (day t) @ '' ''
     @ pad2 (hour t) @ '':'' @ pad2 (minute t) @ '':'' @ pad2 (second t)"

subsection \<open>Helper functions of the server\<close>

text \<open>\<open>SELECT COUNT(*) AS cnt FROM users WHERE username=%s\<close>, then \<open>cnt > 0\<close>.\<close>

definition checkRealUsername :: "store \<Rightarrow> string \<Rightarrow> bool" where
  "checkRealUsername db name = (length (filter (\<lambda>u. username u = name) (users db)) > 0)"

definition checkValidPassword :: "string \<Rightarrow> bool" where
  "checkValidPassword pw =
     (if length pw < 7 then False
      else (let has_upper = list_ex isupper pw;
                has_digit = list_ex isdigit pw;
                has_special = list_ex (\<lambda>c. c \<in> set [CHR ''_'', CHR ''@'', CHR ''$'', CHR ''#'', CHR ''!'']) pw
            in has_upper \<and> has_digit \<and> has_special))"

section \<open>Register\<close>

record RegisterRequest =
  reg_username :: string
  reg_password :: string
  reg_confirm_password :: string

record Response =
  command :: string
  server_message :: string

text \<open>
  \<open>hashPass\<close> draws a fresh salt and returns the bcrypt digest; the digest function is a
  parameter of the handler. The insertion adds one row with \<open>active = 1\<close>.
\<close>

definition insert_user :: "store \<Rightarrow> string \<Rightarrow> string \<Rightarrow> store" where
  "insert_user db name hashed =
     db\<lparr>users := users db @ [\<lparr>username = name, password = hashed, active = True\<rparr>]\<rparr>"

definition Register :: "(string \<Rightarrow> string) \<Rightarrow> store \<Rightarrow> RegisterRequest \<Rightarrow> Response \<times> store" where
  "Register hashPass db request =
     (let reg_username = strip (reg_username request);
          reg_password = strip (reg_password request);
          confirm_password = strip (reg_confirm_password request)
      in if reg_username = [] \<or> reg_password = [] \<or> confirm_password = [] then
           (\<lparr>command = ''1'',
             server_message = ''Registration canceled: All fields are required.''\<rparr>, db)
         else if checkRealUsername db reg_username then
           (\<lparr>command = ''1'', server_message = ''Username taken. Please choose another.''\<rparr>, db)
         else if \<not> checkValidPassword reg_password then
           (\<lparr>command = ''1'',
             server_message =
               ''Invalid password: Must be >=7 chars, include uppercase, digit, and special char.''\<rparr>, db)
         else if reg_password \<noteq> confirm_password then
           (\<lparr>command = ''1'', server_message = ''Passwords do not match.''\<rparr>, db)
         else
           (let hashed = hashPass reg_password
            in (\<lparr>command = ''1'',
                 server_message = ''Registration successful. You are now logged in!''\<rparr>,
                insert_user db reg_username hashed)))"

section \<open>SendMessage\<close>

record SendMessageRequest =
  sm_command :: string
  sm_message :: string

record SendMessageResponse =
  sm_success :: bool
  sm_server_message :: string

text \<open>
  \<open>dict(context.invocation_metadata())\<close> followed by \<open>md.get("username", "unknown")\<close>:
  of several pairs with one key the dictionary keeps the last.
\<close>

definition md_get :: "(string \<times> string) list \<Rightarrow> string \<Rightarrow> string \<Rightarrow> string" where
  "md_get md key dflt = (case map_of (rev md) key of None \<Rightarrow> dflt | Some v \<Rightarrow> v)"

text \<open>
  \<open>INSERT INTO messages (receiver, sender, message, isread) VALUES (%s, %s, %s, 0)\<close>:
  the store assigns the id and the timestamp \<open>now\<close>.
\<close>

definition insert_message :: "timestamp \<Rightarrow> store \<Rightarrow> string \<Rightarrow> string \<Rightarrow> string \<Rightarrow> store" where
  "insert_message now db rcv sndr body =
     db\<lparr>messages := messages db @
           [\<lparr>messageid = next_messageid db, receiver = rcv, sender = sndr, message = body,
             datetime = now, isread = False\<rparr>],
        next_messageid := Suc (next_messageid db)\<rparr>"

definition SendMessage ::
  "timestamp \<Rightarrow> store \<Rightarrow> (string \<times> string) list \<Rightarrow> SendMessageRequest \<Rightarrow> SendMessageResponse \<times> store" where
  "SendMessage now db metadata request =
     (let full_text = strip (sm_message request);
          sender = md_get metadata ''username'' ''unknown''
      in if \<not> startswith_at full_text then
           (\<lparr>sm_success = False,
             sm_server_message = ''Message must start with '' @ [CHR 0x27] @ ''@username''
                @ [CHR 0x27] @ '' for a direct message.''\<rparr>, db)
         else
           (let parts = split_space1 full_text
            in if length parts < 2 then
                 (\<lparr>sm_success = False,
                   sm_server_message = ''Invalid format. Use '' @ [CHR 0x27] @ ''@username message''
                      @ [CHR 0x27] @ ''.''\<rparr>, db)
               else
                 (let target_username = drop 1 (parts ! 0);
                      message = parts ! 1
                  in if \<not> checkRealUsername db target_username then
                       (\<lparr>sm_success = False, sm_server_message = ''Recipient does not exist.''\<rparr>, db)
                     else
                       (\<lparr>sm_success = True, sm_server_message = []\<rparr>,
                        insert_message now db target_username sender message))))"

section \<open>CheckMessages\<close>

record CheckMessagesRequest =
  cm_username :: string
  cm_choice :: string
  cm_sender :: string

record CheckMessagesResponse =
  cmr_command :: string
  cmr_server_message :: string
  cmr_sender :: string
  cmr_message_body :: string

text \<open>
  The handler is a generator. Each turn it yields is recorded together with the store as
  it stands at that \<open>yield\<close>, so that the order of the turns and of the updates between
  them can be read off the trace.
\<close>

type_synonym emitted = "CheckMessagesResponse \<times> store"

definition reply :: "string \<Rightarrow> CheckMessagesResponse" where
  "reply text = \<lparr>cmr_command = ''checkmessages'', cmr_server_message = text,
                 cmr_sender = [], cmr_message_body = []\<rparr>"

definition delivery :: "msg \<Rightarrow> CheckMessagesResponse" where
  "delivery m =
     \<lparr>cmr_command = ''checkmessages'',
      cmr_server_message = strftime (datetime m) @ '' '' @ sender m @ '': '' @ message m,
      cmr_sender = sender m, cmr_message_body = message m\<rparr>"

subsection \<open>The queries\<close>

text \<open>\<open>SELECT COUNT(*) AS cnt FROM messages WHERE receiver=%s AND isread=0\<close>.\<close>

definition unread_rows :: "store \<Rightarrow> string \<Rightarrow> msg list" where
  "unread_rows db rcv = filter (\<lambda>m. receiver m = rcv \<and> \<not> isread m) (messages db)"

definition unread_count :: "store \<Rightarrow> string \<Rightarrow> nat" where
  "unread_count db rcv = length (unread_rows db rcv)"

text \<open>
  \<open>SELECT sender, COUNT(*) as num FROM messages WHERE receiver=%s AND isread=0 GROUP BY sender\<close>.
\<close>

definition senders_info :: "store \<Rightarrow> string \<Rightarrow> (string \<times> nat) list" where
  "senders_info db rcv =
     map (\<lambda>s. (s, length (filter (\<lambda>m. sender m = s) (unread_rows db rcv))))
         (remdups (map sender (unread_rows db rcv)))"

text \<open>
  \<open>SELECT messageid, sender, message, datetime FROM messages
   WHERE receiver=%s AND sender=%s AND isread=0 ORDER BY messageid\<close>.
\<close>

definition unread_from :: "store \<Rightarrow> string \<Rightarrow> string \<Rightarrow> msg list" where
  "unread_from db rcv sndr =
     sort_key messageid
       (filter (\<lambda>m. receiver m = rcv \<and> sender m = sndr \<and> \<not> isread m) (messages db))"

text \<open>\<open>UPDATE messages SET isread=1 WHERE messageid IN (...)\<close>.\<close>

definition mark_read :: "store \<Rightarrow> nat list \<Rightarrow> store" where
  "mark_read db ids =
     db\<lparr>messages := map (\<lambda>m. if messageid m \<in> set ids then m\<lparr>isread := True\<rparr> else m)
                          (messages db)\<rparr>"

subsection \<open>The batch loop\<close>

text \<open>
  \<open>for i in range(0, len(msgs), batch_size)\<close> with \<open>batch = msgs[i:i+batch_size]\<close>: one
  turn for each message of the batch, the update of the batch, one confirmation turn.
\<close>

definition batch_size :: nat where
  "batch_size = 5"

function deliver_from :: "nat \<Rightarrow> msg list \<Rightarrow> store \<Rightarrow> emitted list \<times> store" where
  "deliver_from i msgs db =
     (if i < length msgs then
        (let batch = take batch_size (drop i msgs);
             turns = map (\<lambda>m. (delivery m, db)) batch;
             batch_ids = map messageid batch;
             db' = mark_read db batch_ids;
             confirmation = (reply ''(This batch marked as read.)'', db');
             (rest, db'') = deliver_from (i + batch_size) msgs db'
         in (turns @ [confirmation] @ rest, db''))
      else ([], db))"
  by pat_completeness auto
termination
  by (relation "measure (\<lambda>(i, msgs, db). length msgs - i)") (auto simp: batch_size_def)

subsection \<open>The conversation\<close>

text \<open>
  The loop variables are \<open>username\<close> (initially \<open>None\<close>) and \<open>stage\<close> (initially 0). One
  pass of the loop body yields turns and either leaves the loop (\<open>break\<close>) or goes on to
  the next request with new loop variables. A query whose parameter is \<open>None\<close> compares
  with NULL and selects no row.
\<close>

datatype control = Break | Continue "string option" nat

definition cm_body ::
  "store \<Rightarrow> string option \<Rightarrow> nat \<Rightarrow> CheckMessagesRequest \<Rightarrow> emitted list \<times> store \<times> control" where
  "cm_body db uname stage req =
     (if stage = 0 then
        (let name = strip (cm_username req)
         in if name = [] then
              ([(reply ''No username provided. Aborting.'', db)], db, Break)
            else
              (let cnt = unread_count db name
               in if cnt = 0 then
                    ([(reply ''You have 0 unread messages.'', db)], db, Break)
                  else
                    ([(reply (''You have '' @ str_nat cnt @ '' unread messages.''
                         @ [CHR 0x0A] @ ''Type '' @ [CHR 0x27] @ ''1'' @ [CHR 0x27]
                         @ '' to read them, or '' @ [CHR 0x27] @ ''2'' @ [CHR 0x27]
                         @ '' to skip.''), db)],
                     db, Continue (Some name) 1)))
      else if stage = 1 then
        (let choice = strip (cm_choice req)
         in if choice = ''2'' then
              ([(reply ''Skipping reading messages.'', db)], db, Break)
            else if choice = ''1'' then
              (let infos =
                     (case uname of None \<Rightarrow> [] | Some u \<Rightarrow> senders_info db u)
               in if infos = [] then
                    ([(reply ''No unread messages found.'', db)], db, Break)
                  else
                    (let senders_str =
                           join_comma (map (\<lambda>(s, num). s @ ''('' @ str_nat num @ '')'') infos)
                     in ([(reply (''Unread from: '' @ senders_str @ [CHR 0x0A]
                             @ ''Type the sender'' @ [CHR 0x27]
                             @ ''s name to read those messages.''), db)],
                         db, Continue uname 2)))
            else
              ([(reply (''Invalid choice. Please type '' @ [CHR 0x27] @ ''1'' @ [CHR 0x27]
                   @ '' or '' @ [CHR 0x27] @ ''2'' @ [CHR 0x27] @ ''.''), db)],
               db, Continue uname stage))
      else if stage = 2 then
        (let chosen_sender = strip (cm_sender req)
         in if chosen_sender = [] then
              ([(reply ''Please provide a valid sender name.'', db)], db, Continue uname stage)
            else
              (let msgs = (case uname of None \<Rightarrow> [] | Some u \<Rightarrow> unread_from db u chosen_sender)
               in if msgs = [] then
                    ([(reply (''No unread messages from '' @ chosen_sender @ ''.''), db)], db, Break)
                  else
                    (let (turns, db') = deliver_from 0 msgs db
                     in (turns @ [(reply ''Done reading messages from this sender.'', db')],
                         db', Break))))
      else ([], db, Continue uname stage))"

fun cm_loop ::
  "store \<Rightarrow> string option \<Rightarrow> nat \<Rightarrow> CheckMessagesRequest list \<Rightarrow> emitted list \<times> store" where
  "cm_loop db uname stage [] = ([], db)"
| "cm_loop db uname stage (req # reqs) =
     (case cm_body db uname stage req of
        (turns, db', Break) \<Rightarrow> (turns, db')
      | (turns, db', Continue uname' stage') \<Rightarrow>
          (let (rest, db'') = cm_loop db' uname' stage' reqs in (turns @ rest, db'')))"

definition CheckMessages :: "store \<Rightarrow> CheckMessagesRequest list \<Rightarrow> emitted list \<times> store" where
  "CheckMessages db request_iterator = cm_loop db None 0 request_iterator"

section \<open>Logoff and SearchUsers\<close>

record LogoffRequest =
  lo_username :: string

text \<open>\<open>UPDATE users SET active=0 WHERE username=%s\<close>.\<close>

definition set_inactive :: "store \<Rightarrow> string \<Rightarrow> store" where
  "set_inactive db name =
     db\<lparr>users := map (\<lambda>u. if username u = name then u\<lparr>active := False\<rparr> else u) (users db)\<rparr>"

definition Logoff :: "store \<Rightarrow> LogoffRequest \<Rightarrow> Response \<times> store" where
  "Logoff db request =
     (let name = strip (lo_username request)
      in if name = [] then
           (\<lparr>command = ''logoff'', server_message = ''No username provided.''\<rparr>, db)
         else
           (\<lparr>command = ''logoff'', server_message = name @ '' has been logged off.''\<rparr>,
            set_inactive db name))"

record SearchRequest =
  sr_username :: string

record SearchResponse =
  sr_success :: bool
  sr_usernames :: "string list"
  sr_server_message :: string

text \<open>
  The body of \<open>SearchUsers\<close> runs under \<open>try\<close>: connecting to the store or the query may
  raise. The handler is given the outcome of reaching the store, \<open>None\<close> when that raised
  and the store otherwise.
\<close>

definition SearchUsers :: "store option \<Rightarrow> SearchRequest \<Rightarrow> SearchResponse" where
  "SearchUsers conn request =
     (let name = strip (sr_username request)
      in case conn of
           Some db \<Rightarrow>
             (let rows = users db;
                  all_users = map username (filter (\<lambda>r. username r \<noteq> name) rows)
              in \<lparr>sr_success = True, sr_usernames = all_users,
                  sr_server_message = ''User list retrieved.''\<rparr>)
         | None \<Rightarrow>
             \<lparr>sr_success = False, sr_usernames = [],
              sr_server_message = ''Error searching users.''\<rparr>)"

section \<open>DeleteLastMessage and DeactivateAccount\<close>

record DeleteRequest =
  del_username :: string
  del_confirmation :: string

text \<open>
  \<open>SELECT messageid FROM messages WHERE sender=%s AND isread=0
   ORDER BY messageid DESC LIMIT 1\<close>, then \<open>cur.fetchone()\<close>.
\<close>

definition last_unread_sent :: "store \<Rightarrow> string \<Rightarrow> nat option" where
  "last_unread_sent db name =
     (case rev (sort (map messageid (filter (\<lambda>m. sender m = name \<and> \<not> isread m) (messages db)))) of
        [] \<Rightarrow> None
      | i # _ \<Rightarrow> Some i)"

text \<open>\<open>DELETE FROM messages WHERE messageid=%s\<close>.\<close>

definition delete_message :: "store \<Rightarrow> nat \<Rightarrow> store" where
  "delete_message db i = db\<lparr>messages := filter (\<lambda>m. messageid m \<noteq> i) (messages db)\<rparr>"

text \<open>
  The generator yields the prompt before it reads a request; the loop over the requests
  leaves at its first pass on every path.
\<close>

definition DeleteLastMessage :: "store \<Rightarrow> DeleteRequest list \<Rightarrow> Response list \<times> store" where
  "DeleteLastMessage db request_iterator =
     (let prompt = \<lparr>command = ''delete'',
             server_message = ''Are you sure you want to delete your last unread message? (yes/no)''\<rparr>
      in case request_iterator of
           [] \<Rightarrow> ([prompt], db)
         | req # _ \<Rightarrow>
             (let name = strip (del_username req);
                  confirm = lower (strip (del_confirmation req))
              in if confirm = ''yes'' then
                   (case last_unread_sent db name of
                      None \<Rightarrow>
                        ([prompt, \<lparr>command = ''delete'',
                                   server_message = ''No unread messages to delete.''\<rparr>], db)
                    | Some last_id \<Rightarrow>
                        ([prompt, \<lparr>command = ''delete'',
                                   server_message = ''Your last unread message was deleted.''\<rparr>],
                         delete_message db last_id))
                 else
                   ([prompt, \<lparr>command = ''delete'', server_message = ''Delete canceled.''\<rparr>], db)))"

record DeactivateRequest =
  deact_username :: string
  deact_confirmation :: string

text \<open>
  \<open>DELETE FROM messages WHERE sender=%s\<close> and \<open>DELETE FROM users WHERE username=%s\<close>,
  committed together.
\<close>

definition delete_account :: "store \<Rightarrow> string \<Rightarrow> store" where
  "delete_account db name =
     db\<lparr>messages := filter (\<lambda>m. sender m \<noteq> name) (messages db),
        users := filter (\<lambda>u. username u \<noteq> name) (users db)\<rparr>"

definition DeactivateAccount :: "store \<Rightarrow> DeactivateRequest list \<Rightarrow> Response list \<times> store" where
  "DeactivateAccount db request_iterator =
     (let prompt = \<lparr>command = ''deactivate'',
             server_message = ''Are you sure you want to deactivate your account? (yes/no)''\<rparr>
      in case request_iterator of
           [] \<Rightarrow> ([prompt], db)
         | req # _ \<Rightarrow>
             (let name = strip (deact_username req);
                  confirmation = lower (strip (deact_confirmation req))
              in if confirmation = ''yes'' then
                   ([prompt, \<lparr>command = ''deactivate'',
                              server_message = ''Your account and sent messages are removed.''\<rparr>],
                    delete_account db name)
                 else
                   ([prompt, \<lparr>command = ''deactivate'',
                              server_message = ''Deactivation canceled.''\<rparr>], db)))"

section \<open>Vocabulary of the properties\<close>

text \<open>\<open>sub in s\<close>: the text \<open>sub\<close> occurs in \<open>s\<close>.\<close>

fun contains :: "string \<Rightarrow> string \<Rightarrow> bool" where
  "contains sub [] = (sub = [])"
| "contains sub (c # cs) = (take (length sub) (c # cs) = sub \<or> contains sub cs)"

text \<open>
  The password policy in the words of the specification: at least 7 characters, at least
  one uppercase letter, one digit and one character of the set \<open>_ @ $ # !\<close>.
\<close>

definition password_policy :: "string \<Rightarrow> bool" where
  "password_policy pw \<longleftrightarrow>
     7 \<le> length pw \<and> (\<exists>c\<in>set pw. isupper c) \<and> (\<exists>c\<in>set pw. isdigit c)
     \<and> (\<exists>c\<in>set pw. c \<in> {CHR ''_'', CHR ''@'', CHR ''$'', CHR ''#'', CHR ''!''})"

subsection \<open>Example stores and requests\<close>

definition db0 :: store where
  "db0 = \<lparr>users = [], messages = [], next_messageid = 1\<rparr>"

definition alice_request :: RegisterRequest where
  "alice_request =
     \<lparr>reg_username = ''alice'', reg_password = ''Abcdef1!'', reg_confirm_password = '' Abcdef1!''\<rparr>"

definition db_users :: store where
  "db_users = \<lparr>users = [\<lparr>username = ''alice'', password = ''x'', active = True\<rparr>,
                        \<lparr>username = ''bob'', password = ''y'', active = False\<rparr>],
               messages = [], next_messageid = 1\<rparr>"

definition db_two :: store where
  "db_two = \<lparr>users = [], 
     messages = [\<lparr>messageid = 1, receiver = ''bob'', sender = ''alice'', message = ''hi'',
                  datetime = \<lparr>year = 2025, month = 2, day = 3, hour = 4, minute = 5, second = 6\<rparr>,
                  isread = True\<rparr>,
                 \<lparr>messageid = 2, receiver = ''bob'', sender = ''alice'', message = ''yo'',
                  datetime = \<lparr>year = 2025, month = 2, day = 3, hour = 4, minute = 5, second = 7\<rparr>,
                  isread = False\<rparr>],
     next_messageid = 3\<rparr>"

definition deact_prompt :: Response where
  "deact_prompt = \<lparr>command = ''deactivate'',
     server_message = ''Are you sure you want to deactivate your account? (yes/no)''\<rparr>"

definition db_chat :: store where
  "db_chat = \<lparr>users = [\<lparr>username = ''alice'', password = ''x'', active = True\<rparr>,
                        \<lparr>username = ''bob'', password = ''y'', active = True\<rparr>],
     messages = [\<lparr>messageid = 1, receiver = ''bob'', sender = ''alice'', message = ''hi'',
                  datetime = \<lparr>year = 2025, month = 2, day = 3, hour = 4, minute = 5, second = 6\<rparr>,
                  isread = False\<rparr>,
                 \<lparr>messageid = 2, receiver = ''alice'', sender = ''bob'', message = ''yo'',
                  datetime = \<lparr>year = 2025, month = 2, day = 3, hour = 4, minute = 5, second = 7\<rparr>,
                  isread = False\<rparr>,
                 \<lparr>messageid = 3, receiver = ''bob'', sender = ''alice'', message = ''again'',
                  datetime = \<lparr>year = 2025, month = 2, day = 3, hour = 4, minute = 5, second = 8\<rparr>,
                  isread = False\<rparr>],
     next_messageid = 4\<rparr>"

text \<open>
  The two parts of a message text \<open>"@<username> <body>"\<close>, as \<open>SendMessage\<close> takes them
  from the result of the split: \<open>parts[0][1:]\<close> and \<open>parts[1]\<close>.
\<close>

definition target_of :: "string \<Rightarrow> string" where
  "target_of text = drop 1 (takeWhile (\<lambda>c. c \<noteq> CHR '' '') text)"

definition body_of :: "string \<Rightarrow> string" where
  "body_of text = tl (dropWhile (\<lambda>c. c \<noteq> CHR '' '') text)"

definition t0 :: timestamp where
  "t0 = \<lparr>year = 2025, month = 2, day = 3, hour = 4, minute = 5, second = 9\<rparr>"

definition del_prompt :: Response where
  "del_prompt = \<lparr>command = ''delete'',
     server_message = ''Are you sure you want to delete your last unread message? (yes/no)''\<rparr>"

text \<open>The ids of the unread messages that \<open>name\<close> has sent.\<close>

definition unread_sent_ids :: "store \<Rightarrow> string \<Rightarrow> nat set" where
  "unread_sent_ids db name =
     set (map messageid (filter (\<lambda>m. sender m = name \<and> \<not> isread m) (messages db)))"

text \<open>The prompts of the triage conversation, as the handler words them.\<close>

definition unread_prompt :: "nat \<Rightarrow> CheckMessagesResponse" where
  "unread_prompt n =
     reply (''You have '' @ str_nat n @ '' unread messages.'' @ [CHR 0x0A] @ ''Type '' @ [CHR 0x27]
        @ ''1'' @ [CHR 0x27] @ '' to read them, or '' @ [CHR 0x27] @ ''2'' @ [CHR 0x27] @ '' to skip.'')"

definition invalid_choice :: CheckMessagesResponse where
  "invalid_choice =
     reply (''Invalid choice. Please type '' @ [CHR 0x27] @ ''1'' @ [CHR 0x27] @ '' or ''
        @ [CHR 0x27] @ ''2'' @ [CHR 0x27] @ ''.'')"

definition invalid_sender :: CheckMessagesResponse where
  "invalid_sender = reply ''Please provide a valid sender name.''"

text \<open>A client turn of the triage conversation.\<close>

definition turn :: "string \<Rightarrow> string \<Rightarrow> string \<Rightarrow> CheckMessagesRequest" where
  "turn u c s = \<lparr>cm_username = u, cm_choice = c, cm_sender = s\<rparr>"

text \<open>
  The batches of a delivery in the words of the specification: \<open>k\<close> messages make
  \<open>ceil(k/5)\<close> batches; batch \<open>j\<close> holds the messages \<open>5j, ..., 5j+4\<close> of the list; before
  batch \<open>j\<close> is delivered the messages of the batches before it are marked read.
  \<open>batch_trace\<close> is what batch \<open>j\<close> contributes to the trace: one delivery turn for each of
  its messages, yielded while the batch is still unread, then the confirmation, yielded
  with the batch marked read.
\<close>

definition batch_marked :: CheckMessagesResponse where
  "batch_marked = reply ''(This batch marked as read.)''"

definition done_reading :: CheckMessagesResponse where
  "done_reading = reply ''Done reading messages from this sender.''"

definition batches :: "nat \<Rightarrow> nat" where
  "batches k = (k + 4) div 5"

definition store_after :: "store \<Rightarrow> msg list \<Rightarrow> nat \<Rightarrow> store" where
  "store_after db msgs j = mark_read db (map messageid (take (5 * j) msgs))"

definition batch_trace :: "store \<Rightarrow> msg list \<Rightarrow> nat \<Rightarrow> emitted list" where
  "batch_trace db msgs j =
     map (\<lambda>m. (delivery m, store_after db msgs j)) (take 5 (drop (5 * j) msgs))
     @ [(batch_marked, store_after db msgs (Suc j))]"

subsection \<open>An example with two batches\<close>

definition msg_of :: "nat \<Rightarrow> string \<Rightarrow> string \<Rightarrow> string \<Rightarrow> bool \<Rightarrow> msg" where
  "msg_of i rcv sndr body rd =
     \<lparr>messageid = i, receiver = rcv, sender = sndr, message = body, datetime = t0, isread = rd\<rparr>"

definition db_six :: store where
  "db_six = \<lparr>users = [],
     messages = [msg_of 6 ''bob'' ''alice'' ''f'' False, msg_of 1 ''bob'' ''alice'' ''a'' False,
                 msg_of 2 ''bob'' ''alice'' ''b'' False, msg_of 7 ''bob'' ''carol'' ''x'' False,
                 msg_of 3 ''bob'' ''alice'' ''c'' False, msg_of 4 ''bob'' ''alice'' ''d'' False,
                 msg_of 5 ''bob'' ''alice'' ''e'' False, msg_of 8 ''alice'' ''bob'' ''y'' False],
     next_messageid = 9\<rparr>"

definition observe :: "emitted \<Rightarrow> string \<times> nat list" where
  "observe e = (cmr_message_body (fst e), map messageid (filter isread (messages (snd e))))"

text \<open>The row that \<open>SendMessage\<close> inserts.\<close>

definition new_message :: "timestamp \<Rightarrow> store \<Rightarrow> string \<Rightarrow> string \<Rightarrow> string \<Rightarrow> msg" where
  "new_message now db rcv sndr body =
     \<lparr>messageid = next_messageid db, receiver = rcv, sender = sndr, message = body,
      datetime = now, isread = False\<rparr>"

subsection \<open>An example round trip\<close>

definition hello_request :: SendMessageRequest where
  "hello_request = \<lparr>sm_command = [], sm_message = ''@bob hello''\<rparr>"

definition db_hello :: store where
  "db_hello = \<lparr>users = users db_users, messages = [msg_of 1 ''bob'' ''alice'' ''hello'' False],
                next_messageid = 2\<rparr>"

section \<open>Properties\<close>

subsection \<open>Register\<close>

lemma checkValidPassword_policy: "checkValidPassword pw = password_policy pw"
  by (auto simp: checkValidPassword_def password_policy_def list_ex_iff Let_def)

lemma Register_empty:
  "strip (reg_username r) = [] \<or> strip (reg_password r) = [] \<or> strip (reg_confirm_password r) = [] \<Longrightarrow>
   Register h db r =
     (\<lparr>command = ''1'', server_message = ''Registration canceled: All fields are required.''\<rparr>, db)"
  by (simp add: Register_def Let_def)

lemma Register_taken:
  "strip (reg_username r) \<noteq> [] \<Longrightarrow> strip (reg_password r) \<noteq> [] \<Longrightarrow>
   strip (reg_confirm_password r) \<noteq> [] \<Longrightarrow> checkRealUsername db (strip (reg_username r)) \<Longrightarrow>
   Register h db r =
     (\<lparr>command = ''1'', server_message = ''Username taken. Please choose another.''\<rparr>, db)"
  by (simp add: Register_def Let_def)

lemma Register_policy:
  "strip (reg_username r) \<noteq> [] \<Longrightarrow> strip (reg_password r) \<noteq> [] \<Longrightarrow>
   strip (reg_confirm_password r) \<noteq> [] \<Longrightarrow> \<not> checkRealUsername db (strip (reg_username r)) \<Longrightarrow>
   \<not> checkValidPassword (strip (reg_password r)) \<Longrightarrow>
   Register h db r =
     (\<lparr>command = ''1'', server_message =
        ''Invalid password: Must be >=7 chars, include uppercase, digit, and special char.''\<rparr>, db)"
  by (simp add: Register_def Let_def)

lemma Register_mismatch:
  "strip (reg_username r) \<noteq> [] \<Longrightarrow> strip (reg_password r) \<noteq> [] \<Longrightarrow>
   strip (reg_confirm_password r) \<noteq> [] \<Longrightarrow> \<not> checkRealUsername db (strip (reg_username r)) \<Longrightarrow>
   checkValidPassword (strip (reg_password r)) \<Longrightarrow>
   strip (reg_password r) \<noteq> strip (reg_confirm_password r) \<Longrightarrow>
   Register h db r = (\<lparr>command = ''1'', server_message = ''Passwords do not match.''\<rparr>, db)"
  by (simp add: Register_def Let_def)

lemma Register_stored:
  "strip (reg_username r) \<noteq> [] \<Longrightarrow> strip (reg_password r) \<noteq> [] \<Longrightarrow>
   \<not> checkRealUsername db (strip (reg_username r)) \<Longrightarrow>
   checkValidPassword (strip (reg_password r)) \<Longrightarrow>
   strip (reg_password r) = strip (reg_confirm_password r) \<Longrightarrow>
   Register h db r =
     (\<lparr>command = ''1'', server_message = ''Registration successful. You are now logged in!''\<rparr>,
      db\<lparr>users := users db @
           [\<lparr>username = strip (reg_username r), password = h (strip (reg_password r)),
             active = True\<rparr>]\<rparr>)"
  by (simp add: Register_def Let_def insert_user_def)

lemma store_users_append_neq: "db\<lparr>users := users db @ [x]\<rparr> \<noteq> db"
proof
  assume "db\<lparr>users := users db @ [x]\<rparr> = db"
  then have "users (db\<lparr>users := users db @ [x]\<rparr>) = users db" by simp
  then show False by simp
qed

lemma Register_successful_iff:
  "contains ''successful'' (server_message (fst (Register h db r))) \<longleftrightarrow> snd (Register h db r) \<noteq> db"
  by (simp add: Register_def Let_def insert_user_def store_users_append_neq)

lemma policy_examples:
  "\<not> checkValidPassword ''abc''" "\<not> checkValidPassword ''abcdefg''" "checkValidPassword ''Abcdef1!''"
  by (simp_all add: checkValidPassword_def isupper_def isdigit_def)

text \<open>
  Claim C4. \<open>Register\<close> works on the three fields after stripping. It rejects, storing
  nothing, when a stripped field is empty, when the username exists, when the password fails
  the policy, when password and confirmation differ, in that order; otherwise it stores the
  user with the digest of the password and \<open>active\<close> set, and answers with a message that
  contains "successful" (which no rejection does). \<open>checkValidPassword\<close> is the policy of
  the specification; "abc" and "abcdefg" fail it and "Abcdef1!" passes.
\<close>

theorem Register_checks:
  fixes h db r
  defines "u \<equiv> strip (reg_username r)"
      and "p \<equiv> strip (reg_password r)"
      and "c \<equiv> strip (reg_confirm_password r)"
  shows "(u = [] \<or> p = [] \<or> c = [] \<longrightarrow>
            Register h db r =
              (\<lparr>command = ''1'', server_message = ''Registration canceled: All fields are required.''\<rparr>, db))
       \<and> (u \<noteq> [] \<and> p \<noteq> [] \<and> c \<noteq> [] \<and> checkRealUsername db u \<longrightarrow>
            Register h db r =
              (\<lparr>command = ''1'', server_message = ''Username taken. Please choose another.''\<rparr>, db))
       \<and> (u \<noteq> [] \<and> p \<noteq> [] \<and> c \<noteq> [] \<and> \<not> checkRealUsername db u \<and> \<not> checkValidPassword p \<longrightarrow>
            Register h db r =
              (\<lparr>command = ''1'', server_message =
                 ''Invalid password: Must be >=7 chars, include uppercase, digit, and special char.''\<rparr>, db))
       \<and> (u \<noteq> [] \<and> p \<noteq> [] \<and> c \<noteq> [] \<and> \<not> checkRealUsername db u \<and> checkValidPassword p \<and> p \<noteq> c \<longrightarrow>
            Register h db r =
              (\<lparr>command = ''1'', server_message = ''Passwords do not match.''\<rparr>, db))
       \<and> (u \<noteq> [] \<and> p \<noteq> [] \<and> c \<noteq> [] \<and> \<not> checkRealUsername db u \<and> checkValidPassword p \<and> p = c \<longrightarrow>
            Register h db r =
              (\<lparr>command = ''1'', server_message = ''Registration successful. You are now logged in!''\<rparr>,
               db\<lparr>users := users db @ [\<lparr>username = u, password = h p, active = True\<rparr>]\<rparr>))
       \<and> (contains ''successful'' (server_message (fst (Register h db r)))
            \<longleftrightarrow> snd (Register h db r) \<noteq> db)
       \<and> checkValidPassword pw = password_policy pw
       \<and> \<not> checkValidPassword ''abc'' \<and> \<not> checkValidPassword ''abcdefg'' \<and> checkValidPassword ''Abcdef1!''"
  unfolding u_def p_def c_def
  using Register_empty [of r h db] Register_taken [of r db h] Register_policy [of r db h]
    Register_mismatch [of r db h] Register_stored [of r db h] Register_successful_iff [of h db r]
    checkValidPassword_policy [of pw] policy_examples
  by blast

lemma strip_simps:
  "strip ''alice'' = ''alice''" "strip ''Abcdef1!'' = ''Abcdef1!''" "strip '' Abcdef1!'' = ''Abcdef1!''"
  by (simp_all add: strip_def isspace_def)

theorem Register_checks_witness:
  "Register id db0 alice_request =
     (\<lparr>command = ''1'', server_message = ''Registration successful. You are now logged in!''\<rparr>,
      \<lparr>users = [\<lparr>username = ''alice'', password = ''Abcdef1!'', active = True\<rparr>],
       messages = [], next_messageid = 1\<rparr>)"
  using Register_checks [where r = alice_request and db = db0 and h = id] policy_examples(3)
  by (simp add: alice_request_def db0_def strip_simps checkRealUsername_def)

subsection \<open>SearchUsers\<close>

lemma SearchUsers_ok:
  "SearchUsers (Some db) r =
     \<lparr>sr_success = True,
      sr_usernames = filter (\<lambda>n. n \<noteq> strip (sr_username r)) (map username (users db)),
      sr_server_message = ''User list retrieved.''\<rparr>"
  by (simp add: SearchUsers_def Let_def filter_map comp_def)

lemma SearchUsers_success_iff: "sr_success (SearchUsers conn r) \<longleftrightarrow> conn \<noteq> None"
  by (cases conn) (simp_all add: SearchUsers_def Let_def)

lemma SearchUsers_Logoff:
  "sr_usernames (SearchUsers (Some (snd (Logoff db l))) r) = sr_usernames (SearchUsers (Some db) r)"
  by (simp add: SearchUsers_ok Logoff_def Let_def set_inactive_def comp_def if_distrib cong: if_cong)

text \<open>
  Claim C10. \<open>SearchUsers\<close> compares each stored username with the caller's stripped
  username and nothing else: when the store answers, it returns success with every other
  username, in table order, whatever the \<open>active\<close> flag of the row (a logoff changes
  nothing in the list), never the caller's own name, and the empty list when no other user
  exists. Success is false exactly when reaching the store raised.
\<close>

theorem SearchUsers_all_but_caller:
  "sr_success (SearchUsers (Some db) r)
   \<and> sr_usernames (SearchUsers (Some db) r)
       = filter (\<lambda>n. n \<noteq> strip (sr_username r)) (map username (users db))
   \<and> (\<forall>u\<in>set (users db). username u \<noteq> strip (sr_username r) \<longrightarrow>
         username u \<in> set (sr_usernames (SearchUsers (Some db) r)))
   \<and> strip (sr_username r) \<notin> set (sr_usernames (SearchUsers (Some db) r))
   \<and> ((\<forall>u\<in>set (users db). username u = strip (sr_username r)) \<longrightarrow>
         sr_usernames (SearchUsers (Some db) r) = [])
   \<and> sr_usernames (SearchUsers (Some (snd (Logoff db l))) r) = sr_usernames (SearchUsers (Some db) r)
   \<and> (\<not> sr_success (SearchUsers conn r) \<longleftrightarrow> conn = None)"
  using SearchUsers_Logoff [of db l r] SearchUsers_success_iff [of conn r]
  by (auto simp: SearchUsers_ok filter_empty_conv)

lemma strip_alice: "strip '' alice '' = ''alice''"
  by (simp add: strip_def isspace_def)

theorem SearchUsers_all_but_caller_witness:
  "sr_usernames (SearchUsers (Some db_users) \<lparr>sr_username = '' alice ''\<rparr>) = [''bob'']
   \<and> \<not> active (users db_users ! 1)"
  using SearchUsers_all_but_caller [where db = db_users and r = "\<lparr>sr_username = '' alice ''\<rparr>"]
  by (simp add: db_users_def strip_alice)

subsection \<open>Marking as read\<close>

lemma mark_read_twice: "mark_read (mark_read db ids) ids = mark_read db ids"
  by (simp add: mark_read_def comp_def if_distrib cong: if_cong)

lemma mark_read_already:
  "\<forall>m\<in>set (messages db). messageid m \<in> set ids \<longrightarrow> isread m \<Longrightarrow> mark_read db ids = db"
proof -
  assume a: "\<forall>m\<in>set (messages db). messageid m \<in> set ids \<longrightarrow> isread m"
  have "map (\<lambda>m. if messageid m \<in> set ids then m\<lparr>isread := True\<rparr> else m) (messages db) = messages db"
    using a by (intro map_idI) auto
  then show ?thesis by (simp add: mark_read_def)
qed

lemma mark_read_row:
  "i < length (messages db) \<Longrightarrow>
   messages (mark_read db ids) ! i =
     (if messageid (messages db ! i) \<in> set ids then (messages db ! i)\<lparr>isread := True\<rparr> else messages db ! i)"
  by (simp add: mark_read_def)

lemma mark_read_frame:
  "users (mark_read db ids) = users db" "next_messageid (mark_read db ids) = next_messageid db"
  "length (messages (mark_read db ids)) = length (messages db)"
  by (simp_all add: mark_read_def)


text \<open>
  Claim C8. Marking is idempotent: marking the same ids twice gives the store that marking
  them once gives; when every row with one of the ids is already read, the update leaves
  the store as it is; a row is changed in its \<open>isread\<close> field only, and only when its id is
  among the ids; a read row set to read is the same row; users and the id counter are
  untouched.
\<close>

theorem mark_read_idempotent:
  "mark_read (mark_read db ids) ids = mark_read db ids
   \<and> ((\<forall>m\<in>set (messages db). messageid m \<in> set ids \<longrightarrow> isread m) \<longrightarrow> mark_read db ids = db)
   \<and> (\<forall>i<length (messages db).
         messages (mark_read db ids) ! i =
           (if messageid (messages db ! i) \<in> set ids then (messages db ! i)\<lparr>isread := True\<rparr>
            else messages db ! i))
   \<and> (\<forall>m. isread m \<longrightarrow> m\<lparr>isread := True\<rparr> = m)
   \<and> length (messages (mark_read db ids)) = length (messages db)
   \<and> users (mark_read db ids) = users db
   \<and> next_messageid (mark_read db ids) = next_messageid db"
  using mark_read_twice [of db ids] mark_read_already [of db ids] mark_read_row [of _ db ids]
    mark_read_frame [of db ids]
  by simp

theorem mark_read_idempotent_witness:
  "mark_read db_two [1] = db_two \<and> mark_read (mark_read db_two [2]) [2] = mark_read db_two [2]
   \<and> isread (messages (mark_read db_two [2]) ! 1) \<and> isread (messages db_two ! 0)
   \<and> \<not> isread (messages db_two ! 1)"
  using mark_read_idempotent [where db = db_two and ids = "[1]"]
    mark_read_idempotent [where db = db_two and ids = "[2]"]
  by (simp add: db_two_def mark_read_def)

subsection \<open>DeactivateAccount\<close>

lemma lower_strip_yes: "lower (strip ''yes'') = ''yes''"
  by (simp add: strip_def isspace_def lower_def lower_char_def isupper_def)

lemma lower_strip_YES: "lower (strip '' YES'') = ''yes''"
  by code_simp

lemma lower_strip_no: "lower (strip ''no'') \<noteq> ''yes''" "lower (strip []) \<noteq> ''yes''"
  by (simp_all add: strip_def isspace_def lower_def lower_char_def isupper_def)

lemma DeactivateAccount_yes:
  "lower (strip (deact_confirmation req)) = ''yes'' \<Longrightarrow>
   DeactivateAccount db (req # rest) =
     ([deact_prompt, \<lparr>command = ''deactivate'',
                      server_message = ''Your account and sent messages are removed.''\<rparr>],
      delete_account db (strip (deact_username req)))"
  by (simp add: DeactivateAccount_def Let_def deact_prompt_def)

lemma delete_account_messages:
  "messages (delete_account db u) = filter (\<lambda>m. sender m \<noteq> u) (messages db)"
  by (simp add: delete_account_def)

lemma delete_account_users:
  "users (delete_account db u) = filter (\<lambda>v. username v \<noteq> u) (users db)"
  by (simp add: delete_account_def)

lemma SearchUsers_usernames:
  "sr_usernames (SearchUsers (Some db) r) =
     map username (filter (\<lambda>v. username v \<noteq> strip (sr_username r)) (users db))"
  by (simp add: SearchUsers_def Let_def)

text \<open>
  Claim C3. When the turn of a Deactivate call names \<open>u\<close> (its username stripped, as every
  registered name is) and its confirmation, stripped and lower-cased, is "yes", the call
  answers with the prompt and the "removed" turn; afterwards no message with sender \<open>u\<close> is
  stored, no user row for \<open>u\<close> is stored, and \<open>u\<close> is in no list that \<open>SearchUsers\<close> returns
  on that store. The messages kept are exactly those with another sender, so the messages
  that \<open>u\<close> received from others all remain; the other user rows remain too.
\<close>

theorem Deactivate_cascade:
  assumes "strip (deact_username req) = u"
      and "lower (strip (deact_confirmation req)) = ''yes''"
  shows "fst (DeactivateAccount db (req # rest)) =
           [deact_prompt, \<lparr>command = ''deactivate'',
                            server_message = ''Your account and sent messages are removed.''\<rparr>]
       \<and> (\<forall>m\<in>set (messages (snd (DeactivateAccount db (req # rest)))). sender m \<noteq> u)
       \<and> (\<forall>v\<in>set (users (snd (DeactivateAccount db (req # rest)))). username v \<noteq> u)
       \<and> \<not> checkRealUsername (snd (DeactivateAccount db (req # rest))) u
       \<and> u \<notin> set (sr_usernames (SearchUsers (Some (snd (DeactivateAccount db (req # rest)))) caller))
       \<and> messages (snd (DeactivateAccount db (req # rest))) = filter (\<lambda>m. sender m \<noteq> u) (messages db)
       \<and> (\<forall>m\<in>set (messages db). receiver m = u \<and> sender m \<noteq> u \<longrightarrow>
             m \<in> set (messages (snd (DeactivateAccount db (req # rest)))))
       \<and> users (snd (DeactivateAccount db (req # rest))) = filter (\<lambda>v. username v \<noteq> u) (users db)"
  using assms
  by (auto simp: DeactivateAccount_yes delete_account_messages delete_account_users
      SearchUsers_usernames checkRealUsername_def filter_empty_conv)

lemma strip_names: "strip ''alice'' = ''alice''" "strip ''bob'' = ''bob''"
  by (simp_all add: strip_def isspace_def)

theorem Deactivate_cascade_witness:
  "messages (snd (DeactivateAccount db_chat [\<lparr>deact_username = ''alice'', deact_confirmation = ''yes''\<rparr>]))
     = [messages db_chat ! 1]
   \<and> map username (users (snd (DeactivateAccount db_chat
          [\<lparr>deact_username = ''alice'', deact_confirmation = ''yes''\<rparr>]))) = [''bob'']
   \<and> sr_usernames (SearchUsers (Some (snd (DeactivateAccount db_chat
          [\<lparr>deact_username = ''alice'', deact_confirmation = ''yes''\<rparr>]))) \<lparr>sr_username = ''bob''\<rparr>) = []"
  using Deactivate_cascade [where req = "\<lparr>deact_username = ''alice'', deact_confirmation = ''yes''\<rparr>"
      and u = "''alice''" and db = db_chat and rest = "[]" and caller = "\<lparr>sr_username = ''bob''\<rparr>"]
  by (simp add: strip_names lower_strip_yes db_chat_def SearchUsers_usernames)

subsection \<open>SendMessage\<close>

lemma md_get_absent: "key \<notin> fst ` set md \<Longrightarrow> md_get md key dflt = dflt"
  by (simp add: md_get_def map_of_eq_None_iff [THEN iffD2])

lemma split_space1_two:
  "CHR '' '' \<in> set s \<Longrightarrow>
   split_space1 s = [takeWhile (\<lambda>c. c \<noteq> CHR '' '') s, tl (dropWhile (\<lambda>c. c \<noteq> CHR '' '') s)]"
  by (simp add: split_space1_def)

lemma split_space1_one: "CHR '' '' \<notin> set s \<Longrightarrow> split_space1 s = [s]"
  by (simp add: split_space1_def)

lemma insert_message_last_sender:
  "sender (last (messages (insert_message now db r s b))) = s"
  by (simp add: insert_message_def)

lemma SendMessage_inserts:
  "startswith_at (strip (sm_message req)) \<Longrightarrow> CHR '' '' \<in> set (strip (sm_message req)) \<Longrightarrow>
   checkRealUsername db (target_of (strip (sm_message req))) \<Longrightarrow>
   SendMessage now db md req =
     (\<lparr>sm_success = True, sm_server_message = []\<rparr>,
      insert_message now db (target_of (strip (sm_message req)))
        (md_get md ''username'' ''unknown'') (body_of (strip (sm_message req))))"
  by (simp add: SendMessage_def Let_def split_space1_two target_of_def body_of_def)


text \<open>
  Claim C9. A well-formed message to an existing recipient is inserted whatever the call
  metadata say: the sender of the new row is the metadata value under "username" (the last
  one, if several), and the literal "unknown" when the metadata have no such key. The
  users table is consulted for the recipient only, never for the sender.
\<close>

theorem SendMessage_sender_unchecked:
  assumes "startswith_at (strip (sm_message req))"
      and "CHR '' '' \<in> set (strip (sm_message req))"
      and "checkRealUsername db (target_of (strip (sm_message req)))"
  shows "SendMessage now db md req =
           (\<lparr>sm_success = True, sm_server_message = []\<rparr>,
            insert_message now db (target_of (strip (sm_message req)))
              (md_get md ''username'' ''unknown'') (body_of (strip (sm_message req))))
       \<and> sender (last (messages (snd (SendMessage now db md req)))) = md_get md ''username'' ''unknown''
       \<and> (''username'' \<notin> fst ` set md \<longrightarrow>
            sender (last (messages (snd (SendMessage now db md req)))) = ''unknown'')
       \<and> (\<forall>v. map_of (rev md) ''username'' = Some v \<longrightarrow>
            sender (last (messages (snd (SendMessage now db md req)))) = v)"
proof -
  have e: "SendMessage now db md req =
           (\<lparr>sm_success = True, sm_server_message = []\<rparr>,
            insert_message now db (target_of (strip (sm_message req)))
              (md_get md ''username'' ''unknown'') (body_of (strip (sm_message req))))"
    using assms by (rule SendMessage_inserts)
  have s: "sender (last (messages (snd (SendMessage now db md req)))) = md_get md ''username'' ''unknown''"
    by (simp add: e insert_message_last_sender)
  have a: "''username'' \<notin> fst ` set md \<longrightarrow> md_get md ''username'' ''unknown'' = ''unknown''"
    by (simp add: md_get_absent)
  have b: "\<forall>v. map_of (rev md) ''username'' = Some v \<longrightarrow> md_get md ''username'' ''unknown'' = v"
    by (simp add: md_get_def)
  show ?thesis using e a b by (simp add: insert_message_last_sender)
qed

lemma strip_at_bob_hello: "strip ''@bob hello'' = ''@bob hello''"
  by (simp add: strip_def isspace_def)

theorem SendMessage_sender_unchecked_witness:
  "\<not> checkRealUsername db_chat ''unknown'' \<and> \<not> checkRealUsername db_chat ''mallory''
   \<and> messages (snd (SendMessage t0 db_chat [] \<lparr>sm_command = [], sm_message = ''@bob hello''\<rparr>))
       = messages db_chat @ [\<lparr>messageid = 4, receiver = ''bob'', sender = ''unknown'',
                               message = ''hello'', datetime = t0, isread = False\<rparr>]
   \<and> messages (snd (SendMessage t0 db_chat [(''username'', ''mallory'')]
          \<lparr>sm_command = [], sm_message = ''@bob hello''\<rparr>))
       = messages db_chat @ [\<lparr>messageid = 4, receiver = ''bob'', sender = ''mallory'',
                               message = ''hello'', datetime = t0, isread = False\<rparr>]"
  using SendMessage_sender_unchecked [where req = "\<lparr>sm_command = [], sm_message = ''@bob hello''\<rparr>"
      and db = db_chat and now = t0 and md = "[]"]
    SendMessage_sender_unchecked [where req = "\<lparr>sm_command = [], sm_message = ''@bob hello''\<rparr>"
      and db = db_chat and now = t0 and md = "[(''username'', ''mallory'')]"]
  by (simp add: strip_at_bob_hello target_of_def body_of_def checkRealUsername_def db_chat_def
      insert_message_def md_get_def)

subsection \<open>DeleteLastMessage\<close>

lemma last_sorted_Max: "sorted xs \<Longrightarrow> xs \<noteq> [] \<Longrightarrow> last xs = Max (set (xs :: nat list))"
proof (induction xs)
  case Nil
  then show ?case by simp
next
  case (Cons x xs)
  show ?case
  proof (cases "xs = []")
    case True
    then show ?thesis by simp
  next
    case False
    have srt: "sorted xs" and le: "\<forall>y\<in>set xs. x \<le> y" using Cons.prems(1) by simp_all
    have ih: "last xs = Max (set xs)" using Cons.IH srt False by simp
    have "Max (set xs) \<in> set xs" using False by (intro Max_in) simp_all
    then have "x \<le> Max (set xs)" using le by blast
    moreover have "Max (set (x # xs)) = max x (Max (set xs))"
      using False by (simp add: Max_insert)
    ultimately have "Max (set (x # xs)) = Max (set xs)" by (simp add: max_def)
    then show ?thesis using ih False by simp
  qed
qed

lemma last_unread_sent_Max:
  "last_unread_sent db name =
     (if unread_sent_ids db name = {} then None else Some (Max (unread_sent_ids db name)))"
proof -
  define xs where "xs = map messageid (filter (\<lambda>m. sender m = name \<and> \<not> isread m) (messages db))"
  have s: "set xs = unread_sent_ids db name"
    by (auto simp: unread_sent_ids_def xs_def)
  have d: "last_unread_sent db name = (case rev (sort xs) of [] \<Rightarrow> None | i # _ \<Rightarrow> Some i)"
    by (simp add: last_unread_sent_def xs_def)
  show ?thesis
  proof (cases "xs = []")
    case True
    then have "unread_sent_ids db name = {}" using s by simp
    then show ?thesis using True d by simp
  next
    case False
    have ne: "sort xs \<noteq> []"
    proof
      assume "sort xs = []"
      then have "length (sort xs) = 0" by simp
      then show False using False by simp
    qed
    have m: "last (sort xs) = Max (unread_sent_ids db name)"
      using last_sorted_Max [of "sort xs"] ne s by simp
    have "sort xs = butlast (sort xs) @ [last (sort xs)]" using ne by simp
    then have "rev (sort xs) = rev (butlast (sort xs) @ [last (sort xs)])" by simp
    then have r: "rev (sort xs) = last (sort xs) # rev (butlast (sort xs))" by simp
    have "last_unread_sent db name = Some (last (sort xs))"
      unfolding d r by simp
    moreover have "unread_sent_ids db name \<noteq> {}" using s False by auto
    ultimately show ?thesis using m by simp
  qed
qed


lemma filter_neq_remove1:
  "distinct (map f xs) \<Longrightarrow> m \<in> set xs \<Longrightarrow> filter (\<lambda>x. f x \<noteq> f m) xs = remove1 m xs"
proof (induction xs)
  case Nil
  then show ?case by simp
next
  case (Cons a xs)
  show ?case
  proof (cases "a = m")
    case True
    have "f m \<notin> f ` set xs" using Cons.prems(1) True by simp
    then have "\<forall>x\<in>set xs. f x \<noteq> f m" by (metis imageI)
    then have "filter (\<lambda>x. f x \<noteq> f m) xs = xs" by (simp add: filter_id_conv)
    then show ?thesis using True by simp
  next
    case False
    then have m: "m \<in> set xs" using Cons.prems(2) by simp
    have "f a \<notin> f ` set xs" using Cons.prems(1) by simp
    then have "f a \<noteq> f m" using m by (metis imageI)
    moreover have "filter (\<lambda>x. f x \<noteq> f m) xs = remove1 m xs"
      using Cons.IH Cons.prems(1) m by simp
    ultimately show ?thesis using False by simp
  qed
qed

lemma DeleteLastMessage_first: "DeleteLastMessage db (req # rest) = DeleteLastMessage db [req]"
  by (simp add: DeleteLastMessage_def)

lemma DeleteLastMessage_cancel:
  "lower (strip (del_confirmation req)) \<noteq> ''yes'' \<Longrightarrow>
   DeleteLastMessage db (req # rest) =
     ([del_prompt, \<lparr>command = ''delete'', server_message = ''Delete canceled.''\<rparr>], db)"
  by (simp add: DeleteLastMessage_def Let_def del_prompt_def)

lemma DeleteLastMessage_nothing:
  "lower (strip (del_confirmation req)) = ''yes'' \<Longrightarrow>
   unread_sent_ids db (strip (del_username req)) = {} \<Longrightarrow>
   DeleteLastMessage db (req # rest) =
     ([del_prompt, \<lparr>command = ''delete'', server_message = ''No unread messages to delete.''\<rparr>], db)"
  by (simp add: DeleteLastMessage_def Let_def del_prompt_def last_unread_sent_Max)

lemma DeleteLastMessage_deleted:
  "lower (strip (del_confirmation req)) = ''yes'' \<Longrightarrow>
   unread_sent_ids db (strip (del_username req)) \<noteq> {} \<Longrightarrow>
   DeleteLastMessage db (req # rest) =
     ([del_prompt, \<lparr>command = ''delete'', server_message = ''Your last unread message was deleted.''\<rparr>],
      db\<lparr>messages := filter (\<lambda>m. messageid m \<noteq> Max (unread_sent_ids db (strip (del_username req))))
                          (messages db)\<rparr>)"
  by (simp add: DeleteLastMessage_def Let_def del_prompt_def last_unread_sent_Max delete_message_def)

lemma Max_unread_sent:
  assumes "unread_sent_ids db name \<noteq> {}"
  shows "\<exists>m\<in>set (messages db). sender m = name \<and> \<not> isread m
           \<and> messageid m = Max (unread_sent_ids db name)"
proof -
  have "finite (unread_sent_ids db name)" by (simp add: unread_sent_ids_def)
  then have "Max (unread_sent_ids db name) \<in> unread_sent_ids db name"
    using assms by (rule Max_in)
  then show ?thesis by (auto simp: unread_sent_ids_def)
qed

lemma delete_unique:
  assumes "distinct (map messageid (messages db))" and "unread_sent_ids db name \<noteq> {}"
  shows "\<exists>m\<in>set (messages db). sender m = name \<and> \<not> isread m
           \<and> messageid m = Max (unread_sent_ids db name)
           \<and> filter (\<lambda>x. messageid x \<noteq> Max (unread_sent_ids db name)) (messages db)
               = remove1 m (messages db)"
proof -
  obtain m where m: "m \<in> set (messages db)" "sender m = name" "\<not> isread m"
      "messageid m = Max (unread_sent_ids db name)"
    using Max_unread_sent [OF assms(2)] by blast
  have "filter (\<lambda>x. messageid x \<noteq> messageid m) (messages db) = remove1 m (messages db)"
    using assms(1) m(1) by (rule filter_neq_remove1)
  then show ?thesis using m by auto
qed

text \<open>
  Claim C2, as amended. The handler reads the first client turn only and answers it with
  one turn after the prompt. It takes the username stripped and the confirmation stripped
  and lower-cased. When that confirmation is "yes": with no unread message sent by the
  user it answers "nothing to delete" and the store is unchanged; otherwise it answers
  "deleted" and removes the rows whose id is the largest id among the unread messages the
  user has sent (one row, that message, when ids are unique). When that confirmation is
  anything else, "no" and the empty text included, it answers "canceled" and the store is
  unchanged.
\<close>

theorem DeleteLast_outcome:
  fixes db req rest
  defines "name \<equiv> strip (del_username req)"
      and "confirm \<equiv> lower (strip (del_confirmation req))"
  defines "S \<equiv> unread_sent_ids db name"
  shows "(confirm = ''yes'' \<and> S = {} \<longrightarrow>
            DeleteLastMessage db (req # rest) =
              ([del_prompt, \<lparr>command = ''delete'', server_message = ''No unread messages to delete.''\<rparr>], db))
       \<and> (confirm = ''yes'' \<and> S \<noteq> {} \<longrightarrow>
            DeleteLastMessage db (req # rest) =
              ([del_prompt, \<lparr>command = ''delete'',
                             server_message = ''Your last unread message was deleted.''\<rparr>],
               db\<lparr>messages := filter (\<lambda>m. messageid m \<noteq> Max S) (messages db)\<rparr>)
            \<and> (\<exists>m\<in>set (messages db). sender m = name \<and> \<not> isread m \<and> messageid m = Max S))
       \<and> (confirm = ''yes'' \<and> S \<noteq> {} \<and> distinct (map messageid (messages db)) \<longrightarrow>
            (\<exists>m\<in>set (messages db). sender m = name \<and> \<not> isread m \<and> messageid m = Max S
               \<and> messages (snd (DeleteLastMessage db (req # rest))) = remove1 m (messages db)))
       \<and> (confirm \<noteq> ''yes'' \<longrightarrow>
            DeleteLastMessage db (req # rest) =
              ([del_prompt, \<lparr>command = ''delete'', server_message = ''Delete canceled.''\<rparr>], db))
       \<and> DeleteLastMessage db (req # rest) = DeleteLastMessage db [req]
       \<and> length (fst (DeleteLastMessage db (req # rest))) = 2
       \<and> lower (strip ''no'') \<noteq> ''yes'' \<and> lower (strip []) \<noteq> ''yes''"
proof -
  have c: "confirm \<noteq> ''yes'' \<longrightarrow>
            DeleteLastMessage db (req # rest) =
              ([del_prompt, \<lparr>command = ''delete'', server_message = ''Delete canceled.''\<rparr>], db)"
    unfolding confirm_def by (simp add: DeleteLastMessage_cancel)
  have n: "confirm = ''yes'' \<and> S = {} \<longrightarrow>
            DeleteLastMessage db (req # rest) =
              ([del_prompt, \<lparr>command = ''delete'', server_message = ''No unread messages to delete.''\<rparr>], db)"
    unfolding confirm_def S_def name_def by (simp add: DeleteLastMessage_nothing)
  have d: "confirm = ''yes'' \<and> S \<noteq> {} \<longrightarrow>
            DeleteLastMessage db (req # rest) =
              ([del_prompt, \<lparr>command = ''delete'',
                             server_message = ''Your last unread message was deleted.''\<rparr>],
               db\<lparr>messages := filter (\<lambda>m. messageid m \<noteq> Max S) (messages db)\<rparr>)"
    unfolding confirm_def S_def name_def by (simp add: DeleteLastMessage_deleted)
  have e: "S \<noteq> {} \<longrightarrow> (\<exists>m\<in>set (messages db). sender m = name \<and> \<not> isread m \<and> messageid m = Max S)"
    unfolding S_def using Max_unread_sent [of db name] by blast
  have u: "confirm = ''yes'' \<and> S \<noteq> {} \<and> distinct (map messageid (messages db)) \<longrightarrow>
            (\<exists>m\<in>set (messages db). sender m = name \<and> \<not> isread m \<and> messageid m = Max S
               \<and> messages (snd (DeleteLastMessage db (req # rest))) = remove1 m (messages db))"
  proof (intro impI)
    assume a: "confirm = ''yes'' \<and> S \<noteq> {} \<and> distinct (map messageid (messages db))"
    then have "messages (snd (DeleteLastMessage db (req # rest)))
         = filter (\<lambda>m. messageid m \<noteq> Max S) (messages db)" using d by simp
    then show "\<exists>m\<in>set (messages db). sender m = name \<and> \<not> isread m \<and> messageid m = Max S
               \<and> messages (snd (DeleteLastMessage db (req # rest))) = remove1 m (messages db)"
      using delete_unique [of db name] a unfolding S_def by simp
  qed
  have l: "length (fst (DeleteLastMessage db (req # rest))) = 2"
    using c n d by (cases "confirm = ''yes''"; cases "S = {}") simp_all
  have k: "lower (strip ''no'') \<noteq> ''yes''" "lower (strip []) \<noteq> ''yes''"
    by (simp_all add: strip_def isspace_def lower_def lower_char_def isupper_def)
  show ?thesis using c n d e u l k DeleteLastMessage_first [of db req rest] by blast
qed


lemma norm_simps:
  "strip ''alice'' = ''alice''" "lower (strip ''YES'') = ''yes''" "lower (strip ''yes'') = ''yes''"
  by code_simp+

lemma unread_sent_alice: "unread_sent_ids db_chat ''alice'' = {1, 3}"
  by (simp add: unread_sent_ids_def db_chat_def)

theorem DeleteLast_outcome_witness:
  "DeleteLastMessage db_chat [\<lparr>del_username = ''alice'', del_confirmation = ''yes''\<rparr>] =
     ([del_prompt, \<lparr>command = ''delete'', server_message = ''Your last unread message was deleted.''\<rparr>],
      db_chat\<lparr>messages := [messages db_chat ! 0, messages db_chat ! 1]\<rparr>)"
  using DeleteLast_outcome [where db = db_chat and rest = "[]"
      and req = "\<lparr>del_username = ''alice'', del_confirmation = ''yes''\<rparr>"]
  by (simp add: norm_simps unread_sent_alice) (simp add: db_chat_def)

text \<open>
  The claim as first stated compares the confirmation of the turn itself with "yes": the
  confirmation "YES" is another value, yet the handler deletes on it.
\<close>

theorem DeleteLast_uppercase_counterexample:
  "del_confirmation \<lparr>del_username = ''alice'', del_confirmation = ''YES''\<rparr> \<noteq> ''yes''
   \<and> fst (DeleteLastMessage db_chat [\<lparr>del_username = ''alice'', del_confirmation = ''YES''\<rparr>]) =
       [del_prompt, \<lparr>command = ''delete'', server_message = ''Your last unread message was deleted.''\<rparr>]
   \<and> map messageid (messages db_chat) = [1, 2, 3]
   \<and> map messageid (messages (snd (DeleteLastMessage db_chat
         [\<lparr>del_username = ''alice'', del_confirmation = ''YES''\<rparr>]))) = [1, 2]"
  by (simp add: DeleteLastMessage_deleted norm_simps unread_sent_alice) (simp add: db_chat_def)

subsection \<open>CheckMessages: the first turn and the re-prompts\<close>

lemma cm_body_no_username:
  "strip (cm_username req) = [] \<Longrightarrow>
   cm_body db uname 0 req = ([(reply ''No username provided. Aborting.'', db)], db, Break)"
  by (simp add: cm_body_def)

lemma cm_body_zero_unread:
  "strip (cm_username req) \<noteq> [] \<Longrightarrow> unread_count db (strip (cm_username req)) = 0 \<Longrightarrow>
   cm_body db uname 0 req = ([(reply ''You have 0 unread messages.'', db)], db, Break)"
  by (simp add: cm_body_def Let_def)

lemma cm_body_some_unread:
  "strip (cm_username req) \<noteq> [] \<Longrightarrow> 0 < unread_count db (strip (cm_username req)) \<Longrightarrow>
   cm_body db uname 0 req =
     ([(unread_prompt (unread_count db (strip (cm_username req))), db)], db,
      Continue (Some (strip (cm_username req))) 1)"
  by (simp add: cm_body_def Let_def unread_prompt_def)

lemma cm_body_invalid_choice:
  "strip (cm_choice req) \<noteq> ''1'' \<Longrightarrow> strip (cm_choice req) \<noteq> ''2'' \<Longrightarrow>
   cm_body db uname 1 req = ([(invalid_choice, db)], db, Continue uname 1)"
  by (simp add: cm_body_def Let_def invalid_choice_def)

lemma cm_body_empty_sender:
  "strip (cm_sender req) = [] \<Longrightarrow>
   cm_body db uname 2 req = ([(invalid_sender, db)], db, Continue uname 2)"
  by (simp add: cm_body_def Let_def invalid_sender_def)

lemma cm_loop_Break:
  "cm_body db uname stage req = (turns, db', Break) \<Longrightarrow>
   cm_loop db uname stage (req # reqs) = (turns, db')"
  by simp

lemma cm_loop_Continue:
  "cm_body db uname stage req = (turns, db', Continue uname' stage') \<Longrightarrow>
   cm_loop db uname stage (req # reqs) =
     (turns @ fst (cm_loop db' uname' stage' reqs), snd (cm_loop db' uname' stage' reqs))"
  by (simp add: split_beta)

lemma cm_loop_invalid_choices:
  "\<forall>r\<in>set reqs. strip (cm_choice r) \<noteq> ''1'' \<and> strip (cm_choice r) \<noteq> ''2'' \<Longrightarrow>
   cm_loop db uname 1 (reqs @ later) =
     (map (\<lambda>r. (invalid_choice, db)) reqs @ fst (cm_loop db uname 1 later),
      snd (cm_loop db uname 1 later))"
proof (induction reqs)
  case Nil
  then show ?case by simp
next
  case (Cons a reqs)
  have "cm_body db uname 1 a = ([(invalid_choice, db)], db, Continue uname 1)"
    by (intro cm_body_invalid_choice) (use Cons.prems in simp_all)
  then have "cm_loop db uname 1 (a # (reqs @ later)) =
      ([(invalid_choice, db)] @ fst (cm_loop db uname 1 (reqs @ later)),
       snd (cm_loop db uname 1 (reqs @ later)))"
    by (rule cm_loop_Continue)
  moreover have "cm_loop db uname 1 (reqs @ later) =
     (map (\<lambda>r. (invalid_choice, db)) reqs @ fst (cm_loop db uname 1 later),
      snd (cm_loop db uname 1 later))"
    using Cons.IH Cons.prems by simp
  ultimately show ?case by simp
qed

lemma cm_loop_empty_senders:
  "\<forall>r\<in>set reqs. strip (cm_sender r) = [] \<Longrightarrow>
   cm_loop db uname 2 (reqs @ later) =
     (map (\<lambda>r. (invalid_sender, db)) reqs @ fst (cm_loop db uname 2 later),
      snd (cm_loop db uname 2 later))"
proof (induction reqs)
  case Nil
  then show ?case by simp
next
  case (Cons a reqs)
  have "cm_body db uname 2 a = ([(invalid_sender, db)], db, Continue uname 2)"
    by (intro cm_body_empty_sender) (use Cons.prems in simp_all)
  then have "cm_loop db uname 2 (a # (reqs @ later)) =
      ([(invalid_sender, db)] @ fst (cm_loop db uname 2 (reqs @ later)),
       snd (cm_loop db uname 2 (reqs @ later)))"
    by (rule cm_loop_Continue)
  moreover have "cm_loop db uname 2 (reqs @ later) =
     (map (\<lambda>r. (invalid_sender, db)) reqs @ fst (cm_loop db uname 2 later),
      snd (cm_loop db uname 2 later))"
    using Cons.IH Cons.prems by simp
  ultimately show ?case by simp
qed

lemma turn_simps: "cm_username (turn u c s) = u" "cm_choice (turn u c s) = c" "cm_sender (turn u c s) = s"
  by (simp_all add: turn_def)

lemma strip_examples:
  "strip ''bob'' = ''bob''" "strip '' '' = []" "strip ''3'' = ''3''" "strip [] = []"
  "strip ''1 '' = ''1''" "strip ''  '' = []" "strip ''alice'' = ''alice''"
  by code_simp+

lemma unread_count_bob: "unread_count db_chat ''bob'' = 2"
  by (simp add: unread_count_def unread_rows_def db_chat_def)

text \<open>
  Claim C5, as amended. The first turn of a triage call is judged on its username after
  stripping. When that is empty (the turn carried no username, or only whitespace) the call
  emits the one "no username" turn and ends. Otherwise the unread messages for that name
  are counted: with none, the call emits the one "0 unread messages" turn and ends; with
  some, it emits the "N unread, type 1 or 2" prompt and stays in the loop at stage 1, so
  that it emits nothing more until a further client turn arrives, which it then handles.
\<close>

theorem Triage_first_turn:
  "(strip (cm_username req) = [] \<longrightarrow>
      CheckMessages db (req # rest) = ([(reply ''No username provided. Aborting.'', db)], db))
   \<and> (strip (cm_username req) \<noteq> [] \<and> unread_count db (strip (cm_username req)) = 0 \<longrightarrow>
      CheckMessages db (req # rest) = ([(reply ''You have 0 unread messages.'', db)], db))
   \<and> (strip (cm_username req) \<noteq> [] \<and> 0 < unread_count db (strip (cm_username req)) \<longrightarrow>
      cm_body db None 0 req =
        ([(unread_prompt (unread_count db (strip (cm_username req))), db)], db,
         Continue (Some (strip (cm_username req))) 1)
      \<and> CheckMessages db [req] = ([(unread_prompt (unread_count db (strip (cm_username req))), db)], db)
      \<and> CheckMessages db (req # rest) =
          ((unread_prompt (unread_count db (strip (cm_username req))), db)
             # fst (cm_loop db (Some (strip (cm_username req))) 1 rest),
           snd (cm_loop db (Some (strip (cm_username req))) 1 rest)))"
  using cm_loop_Break [OF cm_body_no_username, of req db None rest]
    cm_loop_Break [OF cm_body_zero_unread, of req db None rest]
    cm_loop_Continue [OF cm_body_some_unread, of req db None rest]
    cm_loop_Continue [OF cm_body_some_unread, of req db None "[]"]
    cm_body_some_unread [of req db None]
  by (simp add: CheckMessages_def)

theorem Triage_first_turn_witness:
  "CheckMessages db_chat [turn ''bob'' [] []] = ([(unread_prompt 2, db_chat)], db_chat)
   \<and> CheckMessages db0 [turn ''bob'' [] []] = ([(reply ''You have 0 unread messages.'', db0)], db0)
   \<and> CheckMessages db0 [turn '' '' [] []] = ([(reply ''No username provided. Aborting.'', db0)], db0)"
  using Triage_first_turn [where db = db_chat and req = "turn ''bob'' [] []" and rest = "[]"]
    Triage_first_turn [where db = db0 and req = "turn ''bob'' [] []" and rest = "[]"]
    Triage_first_turn [where db = db0 and req = "turn '' '' [] []" and rest = "[]"]
  by (simp add: turn_simps strip_examples unread_count_bob)
     (simp add: unread_count_def unread_rows_def db0_def)

text \<open>
  The claim as first stated judges the username of the turn itself: a username of one
  space is not empty and has no unread message, yet the answer is "no username".
\<close>

theorem Triage_blank_username_counterexample:
  "cm_username (turn '' '' [] []) \<noteq> []
   \<and> unread_count db0 (cm_username (turn '' '' [] [])) = 0
   \<and> CheckMessages db0 [turn '' '' [] []] = ([(reply ''No username provided. Aborting.'', db0)], db0)
   \<and> cmr_server_message (reply ''No username provided. Aborting.'') \<noteq> ''You have 0 unread messages.''"
proof -
  have "cm_body db0 None 0 (turn '' '' [] []) =
      ([(reply ''No username provided. Aborting.'', db0)], db0, Break)"
    by (intro cm_body_no_username) (simp add: turn_simps strip_examples)
  then have "cm_loop db0 None 0 [turn '' '' [] []] =
      ([(reply ''No username provided. Aborting.'', db0)], db0)"
    by (rule cm_loop_Break)
  then show ?thesis
    by (simp add: CheckMessages_def turn_simps unread_count_def unread_rows_def db0_def reply_def)
qed

text \<open>
  Claim C6, as amended. At stage 1 a turn whose choice, stripped, is neither "1" nor "2"
  is answered with the "invalid choice" prompt; at stage 2 a turn whose sender, stripped,
  is empty is answered with the "valid sender" prompt. In both cases the loop goes on at
  the same stage with the same username and the store as it was, and so for any number of
  such turns in a row: each gets its prompt, the store never changes, and the turns after
  them are handled from the same stage.
\<close>

theorem Triage_invalid_turns:
  "((\<forall>r\<in>set reqs. strip (cm_choice r) \<noteq> ''1'' \<and> strip (cm_choice r) \<noteq> ''2'') \<longrightarrow>
      cm_loop db uname 1 reqs = (map (\<lambda>r. (invalid_choice, db)) reqs, db)
      \<and> cm_loop db uname 1 (reqs @ later) =
          (map (\<lambda>r. (invalid_choice, db)) reqs @ fst (cm_loop db uname 1 later),
           snd (cm_loop db uname 1 later)))
   \<and> ((\<forall>r\<in>set reqs. strip (cm_sender r) = []) \<longrightarrow>
      cm_loop db uname 2 reqs = (map (\<lambda>r. (invalid_sender, db)) reqs, db)
      \<and> cm_loop db uname 2 (reqs @ later) =
          (map (\<lambda>r. (invalid_sender, db)) reqs @ fst (cm_loop db uname 2 later),
           snd (cm_loop db uname 2 later)))
   \<and> (strip (cm_choice req) \<noteq> ''1'' \<and> strip (cm_choice req) \<noteq> ''2'' \<longrightarrow>
      cm_body db uname 1 req = ([(invalid_choice, db)], db, Continue uname 1))
   \<and> (strip (cm_sender req) = [] \<longrightarrow>
      cm_body db uname 2 req = ([(invalid_sender, db)], db, Continue uname 2))"
  using cm_loop_invalid_choices [of reqs db uname later] cm_loop_invalid_choices [of reqs db uname "[]"]
    cm_loop_empty_senders [of reqs db uname later] cm_loop_empty_senders [of reqs db uname "[]"]
    cm_body_invalid_choice [of req db uname] cm_body_empty_sender [of req db uname]
  by simp


theorem Triage_invalid_turns_witness:
  "cm_loop db_chat (Some ''bob'') 1 [turn [] ''3'' [], turn [] [] [], turn [] ''3'' []] =
     ([(invalid_choice, db_chat), (invalid_choice, db_chat), (invalid_choice, db_chat)], db_chat)
   \<and> cm_loop db_chat (Some ''bob'') 2 [turn [] [] [], turn [] [] ''  ''] =
     ([(invalid_sender, db_chat), (invalid_sender, db_chat)], db_chat)"
  using Triage_invalid_turns [where db = db_chat and uname = "Some ''bob''"
      and reqs = "[turn [] ''3'' [], turn [] [] [], turn [] ''3'' []]"]
    Triage_invalid_turns [where db = db_chat and uname = "Some ''bob''"
      and reqs = "[turn [] [] [], turn [] [] ''  '']"]
  by (simp add: turn_simps strip_examples)

lemma senders_info_bob: "senders_info db_chat ''bob'' = [(''alice'', 2)]"
  by (simp add: senders_info_def unread_rows_def db_chat_def)

lemma digit_char_2: "digit_char 2 = CHR ''2''"
  by code_simp

text \<open>
  The claim as first stated judges the choice of the turn itself: the choice "1 " is
  neither "1" nor "2", yet the handler takes it for "1" and moves on to stage 2.
\<close>

theorem Triage_padded_choice_counterexample:
  "cm_choice (turn [] ''1 '' []) \<noteq> ''1'' \<and> cm_choice (turn [] ''1 '' []) \<noteq> ''2''
   \<and> cm_body db_chat (Some ''bob'') 1 (turn [] ''1 '' []) =
       ([(reply (''Unread from: alice(2)'' @ [CHR 0x0A] @ ''Type the sender'' @ [CHR 0x27]
             @ ''s name to read those messages.''), db_chat)],
        db_chat, Continue (Some ''bob'') 2)"
  by (simp add: turn_simps cm_body_def Let_def strip_examples senders_info_bob digit_char_2)

subsection \<open>CheckMessages: delivery in batches\<close>

declare deliver_from.simps [simp del]

lemma mark_read_append: "mark_read (mark_read db a) b = mark_read db (a @ b)"
  by (auto simp: mark_read_def)

lemma store_after_Suc:
  "mark_read (store_after db msgs j) (map messageid (take 5 (drop (5 * j) msgs)))
     = store_after db msgs (Suc j)"
proof -
  have "take (5 * j) msgs @ take 5 (drop (5 * j) msgs) = take (5 * j + 5) msgs"
    by (simp add: take_add)
  then have "map messageid (take (5 * j) msgs) @ map messageid (take 5 (drop (5 * j) msgs))
      = map messageid (take (5 * Suc j) msgs)"
    by (metis map_append mult_Suc_right add.commute)
  then show ?thesis by (simp add: store_after_def mark_read_append)
qed

lemma deliver_from_stop:
  "length msgs \<le> i \<Longrightarrow> deliver_from i msgs db = ([], db)"
  by (simp add: deliver_from.simps)

lemma deliver_from_step:
  "i < length msgs \<Longrightarrow>
   deliver_from i msgs db =
     (map (\<lambda>m. (delivery m, db)) (take 5 (drop i msgs))
        @ [(batch_marked, mark_read db (map messageid (take 5 (drop i msgs))))]
        @ fst (deliver_from (i + 5) msgs (mark_read db (map messageid (take 5 (drop i msgs))))),
      snd (deliver_from (i + 5) msgs (mark_read db (map messageid (take 5 (drop i msgs))))))"
  by (subst deliver_from.simps) (simp add: Let_def split_beta batch_size_def batch_marked_def)

lemma deliver_from_trace:
  assumes "j \<le> batches (length msgs)"
  shows "deliver_from (5 * j) msgs (store_after db msgs j) =
           (concat (map (batch_trace db msgs) [j..<batches (length msgs)]),
            mark_read db (map messageid msgs))"
  using assms
proof (induction j rule: inc_induct)
  case base
  have "length msgs \<le> 5 * batches (length msgs)" by (simp add: batches_def)
  then show ?case by (simp add: deliver_from_stop store_after_def)
next
  case (step n)
  have lt: "5 * n < length msgs" using step.hyps(2) by (simp add: batches_def)
  have "deliver_from (5 * n) msgs (store_after db msgs n) =
      (map (\<lambda>m. (delivery m, store_after db msgs n)) (take 5 (drop (5 * n) msgs))
        @ [(batch_marked, store_after db msgs (Suc n))]
        @ fst (deliver_from (5 * n + 5) msgs (store_after db msgs (Suc n))),
       snd (deliver_from (5 * n + 5) msgs (store_after db msgs (Suc n))))"
    using deliver_from_step [OF lt, of "store_after db msgs n"] by (simp add: store_after_Suc)
  moreover have "5 * n + 5 = 5 * Suc n" by simp
  moreover have "[n..<batches (length msgs)] = n # [Suc n..<batches (length msgs)]"
    using step.hyps(2) by (simp add: upt_conv_Cons)
  ultimately show ?case using step.IH by (simp add: batch_trace_def)
qed

lemma concat_batches:
  "concat (map (\<lambda>j. take 5 (drop (5 * j) xs)) [0..<n]) = take (5 * n) xs"
proof (induction n)
  case 0
  then show ?case by simp
next
  case (Suc n)
  have "take (5 * n) xs @ take 5 (drop (5 * n) xs) = take (5 * n + 5) xs"
    by (simp add: take_add)
  then show ?case using Suc by (simp add: add.commute)
qed


lemma mark_read_Nil: "mark_read db [] = db"
  by (simp add: mark_read_def)

lemma store_after_0: "store_after db msgs 0 = db"
  by (simp add: store_after_def mark_read_Nil)

lemma batches_ceil: "k \<le> 5 * batches k \<and> 5 * batches k < k + 5"
  by (simp add: batches_def) arith

lemma batches_pos: "0 < k \<Longrightarrow> 0 < batches k"
  by (simp add: batches_def)

lemma deliver_all:
  "deliver_from 0 msgs db =
     (concat (map (batch_trace db msgs) [0..<batches (length msgs)]),
      mark_read db (map messageid msgs))"
  using deliver_from_trace [of 0 msgs db] by (simp add: store_after_0)

lemma cm_body_deliver:
  assumes "strip (cm_sender req) \<noteq> []" and "unread_from db u (strip (cm_sender req)) = msgs"
      and "msgs \<noteq> []"
  shows "cm_body db (Some u) 2 req =
           (concat (map (batch_trace db msgs) [0..<batches (length msgs)])
              @ [(done_reading, mark_read db (map messageid msgs))],
            mark_read db (map messageid msgs), Break)"
  using assms by (simp add: cm_body_def Let_def deliver_all done_reading_def)

lemma fst_batch_trace:
  "map fst (batch_trace db msgs j) = map delivery (take 5 (drop (5 * j) msgs)) @ [batch_marked]"
  by (simp add: batch_trace_def comp_def)

lemma cmr_sender_simps: "cmr_sender (delivery m) = sender m" "cmr_sender batch_marked = []"
  "cmr_sender done_reading = []"
  by (simp_all add: delivery_def batch_marked_def done_reading_def reply_def)

lemma filter_deliveries:
  assumes "\<forall>m\<in>set xs. sender m \<noteq> []"
  shows "filter (\<lambda>r. cmr_sender r \<noteq> []) (map delivery xs) = map delivery xs"
  using assms by (simp add: filter_id_conv cmr_sender_simps)

lemma filter_marked:
  assumes "\<forall>m\<in>set xs. sender m \<noteq> []"
  shows "filter (\<lambda>r. r = batch_marked) (map delivery xs) = []"
proof -
  have "\<forall>m\<in>set xs. delivery m \<noteq> batch_marked"
    using assms cmr_sender_simps by metis
  then show ?thesis by (simp add: filter_empty_conv)
qed

lemma deliveries_of_batches:
  assumes "\<forall>m\<in>set msgs. sender m \<noteq> []"
  shows "filter (\<lambda>r. cmr_sender r \<noteq> []) (map fst (concat (map (batch_trace db msgs) [0..<n])))
           = map delivery (take (5 * n) msgs)"
proof (induction n)
  case 0
  then show ?case by simp
next
  case (Suc n)
  have sub: "\<forall>m\<in>set (take 5 (drop (5 * n) msgs)). sender m \<noteq> []"
    using assms by (meson in_set_takeD in_set_dropD)
  have "take (5 * n) msgs @ take 5 (drop (5 * n) msgs) = take (5 * n + 5) msgs"
    by (simp add: take_add)
  then have t: "map delivery (take (5 * n) msgs) @ map delivery (take 5 (drop (5 * n) msgs))
      = map delivery (take (5 * Suc n) msgs)"
    by (metis map_append mult_Suc_right add.commute)
  show ?case
    using Suc filter_deliveries [OF sub] t
    by (simp add: fst_batch_trace cmr_sender_simps)
qed

lemma confirmations_of_batches:
  assumes "\<forall>m\<in>set msgs. sender m \<noteq> []"
  shows "length (filter (\<lambda>r. r = batch_marked) (map fst (concat (map (batch_trace db msgs) [0..<n])))) = n"
proof (induction n)
  case 0
  then show ?case by simp
next
  case (Suc n)
  have sub: "\<forall>m\<in>set (take 5 (drop (5 * n) msgs)). sender m \<noteq> []"
    using assms by (meson in_set_takeD in_set_dropD)
  show ?case using Suc filter_marked [OF sub] by (simp add: fst_batch_trace)
qed

lemma unread_from_sender: "m \<in> set (unread_from db u s) \<Longrightarrow> sender m = s"
  by (simp add: unread_from_def)

lemma unread_from_sorted: "sorted (map messageid (unread_from db u s))"
  by (simp add: unread_from_def)

lemma unread_from_after:
  "unread_from (mark_read db (map messageid (unread_from db u s))) u s = []"
proof -
  have "\<forall>m\<in>set (messages db). receiver m = u \<and> sender m = s \<and> \<not> isread m \<longrightarrow>
          messageid m \<in> messageid ` set (unread_from db u s)"
    by (simp add: unread_from_def)
  then have "filter (\<lambda>m. receiver m = u \<and> sender m = s \<and> \<not> isread m)
       (messages (mark_read db (map messageid (unread_from db u s)))) = []"
    by (auto simp: mark_read_def filter_empty_conv)
  then show ?thesis by (simp add: unread_from_def)
qed

lemma store_after_read:
  assumes "m \<in> set (take 5 (drop (5 * j) msgs))"
      and "m' \<in> set (messages (store_after db msgs (Suc j)))" and "messageid m' = messageid m"
  shows "isread m'"
proof -
  have "take (5 * j) msgs @ take 5 (drop (5 * j) msgs) = take (5 * j + 5) msgs"
    by (simp add: take_add)
  then have "set (take 5 (drop (5 * j) msgs)) \<subseteq> set (take (5 * Suc j) msgs)"
    by (metis Un_upper2 set_append mult_Suc_right add.commute)
  then have "messageid m \<in> set (map messageid (take (5 * Suc j) msgs))"
    using assms(1) by auto
  then show ?thesis using assms(2,3) by (auto simp: store_after_def mark_read_def)
qed


text \<open>
  Claim C1. At stage 2, for a chosen sender \<open>s\<close> (the sender of the turn, stripped, not
  empty) from whom the user has \<open>k > 0\<close> unread messages, the loop body yields the batches
  one after the other and then the "Done reading" turn, and leaves the loop, whatever turns
  follow. The delivery turns are the \<open>k\<close> messages in ascending id order; there are
  \<open>ceil(k/5)\<close> confirmation turns, one closing each batch of 5 (the last batch may be
  shorter); the store that goes with the confirmation of a batch has every message of that
  batch marked read, while the deliveries of the batch go with the store before that
  update; the last turn is "Done reading messages from this sender."; afterwards no unread
  message from \<open>s\<close> is left for the user.
\<close>

theorem Triage_batches:
  assumes "strip (cm_sender req) = s" and "s \<noteq> []" and "unread_from db u s = msgs"
      and "length msgs = k" and "0 < k"
  shows "cm_body db (Some u) 2 req =
           (concat (map (batch_trace db msgs) [0..<batches k])
              @ [(done_reading, mark_read db (map messageid msgs))],
            mark_read db (map messageid msgs), Break)
       \<and> cm_loop db (Some u) 2 (req # rest) =
           (fst (cm_body db (Some u) 2 req), mark_read db (map messageid msgs))
       \<and> filter (\<lambda>r. cmr_sender r \<noteq> []) (map fst (fst (cm_body db (Some u) 2 req)))
           = map delivery msgs
       \<and> length (filter (\<lambda>r. cmr_sender r \<noteq> []) (map fst (fst (cm_body db (Some u) 2 req)))) = k
       \<and> sorted (map messageid msgs)
       \<and> length (filter (\<lambda>r. r = batch_marked) (map fst (fst (cm_body db (Some u) 2 req))))
           = batches k
       \<and> k \<le> 5 * batches k \<and> 5 * batches k < k + 5
       \<and> last (fst (cm_body db (Some u) 2 req)) = (done_reading, mark_read db (map messageid msgs))
       \<and> (\<forall>j<batches k. \<forall>m\<in>set (take 5 (drop (5 * j) msgs)).
             \<forall>m'\<in>set (messages (store_after db msgs (Suc j))).
               messageid m' = messageid m \<longrightarrow> isread m')
       \<and> unread_from (mark_read db (map messageid msgs)) u s = []"
proof -
  have ne: "msgs \<noteq> []" using assms(4,5) by auto
  have snd_ne: "\<forall>m\<in>set msgs. sender m \<noteq> []"
    using assms(2,3) unread_from_sender by blast
  have body: "cm_body db (Some u) 2 req =
           (concat (map (batch_trace db msgs) [0..<batches k])
              @ [(done_reading, mark_read db (map messageid msgs))],
            mark_read db (map messageid msgs), Break)"
    using cm_body_deliver [of req db u msgs] assms(1,2,3,4) ne by simp
  have loop: "cm_loop db (Some u) 2 (req # rest) =
           (fst (cm_body db (Some u) 2 req), mark_read db (map messageid msgs))"
    using cm_loop_Break [OF body, of rest] body by simp
  have all: "take (5 * batches k) msgs = msgs"
    using batches_ceil [of k] assms(4) by simp
  have dl: "filter (\<lambda>r. cmr_sender r \<noteq> []) (map fst (fst (cm_body db (Some u) 2 req)))
           = map delivery msgs"
    using deliveries_of_batches [OF snd_ne, of db "batches k"] all
    by (simp add: body cmr_sender_simps)
  have dn: "length (filter (\<lambda>r. cmr_sender r \<noteq> []) (map fst (fst (cm_body db (Some u) 2 req)))) = k"
    using dl assms(4) by simp
  have neq: "done_reading \<noteq> batch_marked"
    by (simp add: done_reading_def batch_marked_def reply_def)
  have cf: "length (filter (\<lambda>r. r = batch_marked) (map fst (fst (cm_body db (Some u) 2 req))))
           = batches k"
    using confirmations_of_batches [OF snd_ne, of db "batches k"] neq by (simp add: body)
  have lst: "last (fst (cm_body db (Some u) 2 req)) = (done_reading, mark_read db (map messageid msgs))"
    by (simp add: body)
  have srt: "sorted (map messageid msgs)" using unread_from_sorted [of db u s] assms(3) by simp
  have rd: "\<forall>j<batches k. \<forall>m\<in>set (take 5 (drop (5 * j) msgs)).
             \<forall>m'\<in>set (messages (store_after db msgs (Suc j))).
               messageid m' = messageid m \<longrightarrow> isread m'"
    using store_after_read by blast
  have aft: "unread_from (mark_read db (map messageid msgs)) u s = []"
    using unread_from_after [of db u s] assms(3) by simp
  show ?thesis using body loop dl dn srt cf batches_ceil [of k] lst rd aft by blast
qed

lemma strip_padded_alice: "strip '' alice'' = ''alice''"
  by code_simp

lemma unread_six:
  "unread_from db_six ''bob'' ''alice'' =
     [msg_of 1 ''bob'' ''alice'' ''a'' False, msg_of 2 ''bob'' ''alice'' ''b'' False,
      msg_of 3 ''bob'' ''alice'' ''c'' False, msg_of 4 ''bob'' ''alice'' ''d'' False,
      msg_of 5 ''bob'' ''alice'' ''e'' False, msg_of 6 ''bob'' ''alice'' ''f'' False]"
  by code_simp

lemma trace_six:
  "map observe (concat (map (batch_trace db_six (unread_from db_six ''bob'' ''alice'')) [0..<batches 6])
      @ [(done_reading, mark_read db_six (map messageid (unread_from db_six ''bob'' ''alice'')))])
    = [(''a'', []), (''b'', []), (''c'', []), (''d'', []), (''e'', []), ([], [1, 2, 3, 4, 5]),
       (''f'', [1, 2, 3, 4, 5]), ([], [6, 1, 2, 3, 4, 5]), ([], [6, 1, 2, 3, 4, 5])]"
  by code_simp

theorem Triage_batches_witness:
  "map observe (fst (cm_body db_six (Some ''bob'') 2 (turn [] [] '' alice'')))
    = [(''a'', []), (''b'', []), (''c'', []), (''d'', []), (''e'', []), ([], [1, 2, 3, 4, 5]),
       (''f'', [1, 2, 3, 4, 5]), ([], [6, 1, 2, 3, 4, 5]), ([], [6, 1, 2, 3, 4, 5])]
   \<and> snd (snd (cm_body db_six (Some ''bob'') 2 (turn [] [] '' alice''))) = Break"
proof -
  have l: "length (unread_from db_six ''bob'' ''alice'') = 6" by (simp add: unread_six)
  have "cm_body db_six (Some ''bob'') 2 (turn [] [] '' alice'') =
           (concat (map (batch_trace db_six (unread_from db_six ''bob'' ''alice'')) [0..<batches 6])
              @ [(done_reading, mark_read db_six (map messageid (unread_from db_six ''bob'' ''alice'')))],
            mark_read db_six (map messageid (unread_from db_six ''bob'' ''alice'')), Break)"
    using Triage_batches [where db = db_six and u = "''bob''" and req = "turn [] [] '' alice''"
        and s = "''alice''" and msgs = "unread_from db_six ''bob'' ''alice''" and k = 6] l
    by (simp add: turn_simps strip_padded_alice)
  then show ?thesis using trace_six by simp
qed

subsection \<open>SendMessage: the outcome and the round trip\<close>

lemma SendMessage_no_at:
  "\<not> startswith_at (strip (sm_message req)) \<Longrightarrow>
   \<not> sm_success (fst (SendMessage now db md req)) \<and> snd (SendMessage now db md req) = db"
  by (simp add: SendMessage_def Let_def)

lemma SendMessage_no_space:
  "startswith_at (strip (sm_message req)) \<Longrightarrow> CHR '' '' \<notin> set (strip (sm_message req)) \<Longrightarrow>
   \<not> sm_success (fst (SendMessage now db md req)) \<and> snd (SendMessage now db md req) = db"
  by (simp add: SendMessage_def Let_def split_space1_one)

lemma SendMessage_no_recipient:
  "startswith_at (strip (sm_message req)) \<Longrightarrow> CHR '' '' \<in> set (strip (sm_message req)) \<Longrightarrow>
   \<not> checkRealUsername db (target_of (strip (sm_message req))) \<Longrightarrow>
   \<not> sm_success (fst (SendMessage now db md req)) \<and> snd (SendMessage now db md req) = db"
  by (simp add: SendMessage_def Let_def split_space1_two target_of_def)

lemma insert_message_messages:
  "messages (insert_message now db rcv sndr body) = messages db @ [new_message now db rcv sndr body]"
  "users (insert_message now db rcv sndr body) = users db"
  "next_messageid (insert_message now db rcv sndr body) = Suc (next_messageid db)"
  by (simp_all add: insert_message_def new_message_def)

lemma new_message_fields:
  "messageid (new_message now db rcv sndr body) = next_messageid db"
  "receiver (new_message now db rcv sndr body) = rcv"
  "sender (new_message now db rcv sndr body) = sndr"
  "message (new_message now db rcv sndr body) = body"
  "isread (new_message now db rcv sndr body) = False"
  by (simp_all add: new_message_def)

lemma insert_unread_count:
  "unread_count (insert_message now db rcv sndr body) rcv = unread_count db rcv + 1"
  by (simp add: unread_count_def unread_rows_def insert_message_messages new_message_fields)

lemma insert_unread_rows:
  "new_message now db rcv sndr body \<in> set (unread_rows (insert_message now db rcv sndr body) rcv)"
  by (simp add: unread_rows_def insert_message_messages new_message_fields)

lemma insert_unread_from:
  "new_message now db rcv sndr body \<in> set (unread_from (insert_message now db rcv sndr body) rcv sndr)"
  by (simp add: unread_from_def insert_message_messages new_message_fields)

lemma insert_senders_info:
  "sndr \<in> fst ` set (senders_info (insert_message now db rcv sndr body) rcv)"
proof -
  have "sndr \<in> sender ` set (unread_rows (insert_message now db rcv sndr body) rcv)"
    using insert_unread_rows [of now db rcv sndr body] new_message_fields(3) by (metis imageI)
  then show ?thesis by (simp add: senders_info_def image_comp comp_def)
qed

lemma read_not_unread:
  "m \<in> set (unread_rows (mark_read db ids) rcv) \<Longrightarrow> messageid m \<notin> set ids"
  by (auto simp: unread_rows_def mark_read_def split: if_splits)

lemma read_new_count:
  assumes "\<forall>m\<in>set (messages db). messageid m \<noteq> next_messageid db"
  shows "unread_count (mark_read (insert_message now db rcv sndr body) [next_messageid db]) rcv
           = unread_count db rcv"
proof -
  have "map (\<lambda>m. if messageid m \<in> set [next_messageid db] then m\<lparr>isread := True\<rparr> else m) (messages db)
      = messages db"
    using assms by (intro map_idI) simp
  then show ?thesis
    by (simp add: unread_count_def unread_rows_def mark_read_def insert_message_messages
        new_message_fields)
qed

text \<open>
  Claim C7. \<open>SendMessage\<close> works on the stripped message text. It answers without success
  and leaves the store as it is when the text does not start with "@", when the text has
  no space (nothing follows the "@username" part), and when the recipient named before the
  first space is no user. Otherwise it succeeds and appends exactly one row, unread, for
  that recipient, with the rest of the text as its body. That row is then counted by the
  unread count of the recipient, its sender is among the senders listed, and it is among the
  unread messages of that sender that the triage delivers. Once a mark-read update names its
  id, no row with that id is unread any more, and (ids being fresh) the unread count of the
  recipient is back to what it was before the send.
\<close>

theorem SendMessage_outcome:
  fixes now db md req
  defines "text \<equiv> strip (sm_message req)"
  defines "new \<equiv> new_message now db (target_of text) (md_get md ''username'' ''unknown'') (body_of text)"
  shows "(\<not> startswith_at text \<longrightarrow>
            \<not> sm_success (fst (SendMessage now db md req)) \<and> snd (SendMessage now db md req) = db)
       \<and> (startswith_at text \<and> CHR '' '' \<notin> set text \<longrightarrow>
            \<not> sm_success (fst (SendMessage now db md req)) \<and> snd (SendMessage now db md req) = db)
       \<and> (startswith_at text \<and> CHR '' '' \<in> set text \<and> \<not> checkRealUsername db (target_of text) \<longrightarrow>
            \<not> sm_success (fst (SendMessage now db md req)) \<and> snd (SendMessage now db md req) = db)
       \<and> (startswith_at text \<and> CHR '' '' \<in> set text \<and> checkRealUsername db (target_of text) \<longrightarrow>
            sm_success (fst (SendMessage now db md req))
            \<and> messages (snd (SendMessage now db md req)) = messages db @ [new]
            \<and> users (snd (SendMessage now db md req)) = users db
            \<and> receiver new = target_of text \<and> message new = body_of text \<and> \<not> isread new
            \<and> unread_count (snd (SendMessage now db md req)) (target_of text)
                = unread_count db (target_of text) + 1
            \<and> new \<in> set (unread_rows (snd (SendMessage now db md req)) (target_of text))
            \<and> sender new \<in> fst ` set (senders_info (snd (SendMessage now db md req)) (target_of text))
            \<and> new \<in> set (unread_from (snd (SendMessage now db md req)) (target_of text) (sender new))
            \<and> (\<forall>ids. messageid new \<in> set ids \<longrightarrow>
                  (\<forall>m\<in>set (unread_rows (mark_read (snd (SendMessage now db md req)) ids) (target_of text)).
                     messageid m \<noteq> messageid new))
            \<and> ((\<forall>m\<in>set (messages db). messageid m \<noteq> next_messageid db) \<longrightarrow>
                  unread_count (mark_read (snd (SendMessage now db md req)) [messageid new]) (target_of text)
                    = unread_count db (target_of text)))"
proof -
  have a: "\<not> startswith_at text \<longrightarrow>
            \<not> sm_success (fst (SendMessage now db md req)) \<and> snd (SendMessage now db md req) = db"
    unfolding text_def using SendMessage_no_at by blast
  have b: "startswith_at text \<and> CHR '' '' \<notin> set text \<longrightarrow>
            \<not> sm_success (fst (SendMessage now db md req)) \<and> snd (SendMessage now db md req) = db"
    unfolding text_def using SendMessage_no_space by blast
  have c: "startswith_at text \<and> CHR '' '' \<in> set text \<and> \<not> checkRealUsername db (target_of text) \<longrightarrow>
            \<not> sm_success (fst (SendMessage now db md req)) \<and> snd (SendMessage now db md req) = db"
    unfolding text_def using SendMessage_no_recipient by blast
  have d: "startswith_at text \<and> CHR '' '' \<in> set text \<and> checkRealUsername db (target_of text) \<longrightarrow>
            SendMessage now db md req =
              (\<lparr>sm_success = True, sm_server_message = []\<rparr>,
               insert_message now db (target_of text) (md_get md ''username'' ''unknown'') (body_of text))"
    unfolding text_def using SendMessage_inserts by blast
  have e: "\<forall>ids. messageid new \<in> set ids \<longrightarrow>
       (\<forall>m\<in>set (unread_rows (mark_read
            (insert_message now db (target_of text) (md_get md ''username'' ''unknown'') (body_of text)) ids)
            (target_of text)). messageid m \<noteq> messageid new)"
    using read_not_unread by metis
  show ?thesis
    using a b c
    by (auto simp: d new_def insert_message_messages new_message_fields insert_unread_count
        insert_unread_rows insert_unread_from insert_senders_info read_new_count
        dest: read_not_unread)
qed


lemma send_hello:
  "SendMessage t0 db_users [(''username'', ''alice'')] hello_request =
     (\<lparr>sm_success = True, sm_server_message = []\<rparr>, db_hello)"
  by code_simp

lemma triage_hello:
  "map observe (fst (CheckMessages db_hello [turn ''bob'' [] [], turn [] ''1'' [], turn [] [] ''alice'']))
     = [([], []), ([], []), (''hello'', []), ([], [1]), ([], [1])]"
  "unread_count (snd (CheckMessages db_hello [turn ''bob'' [] [], turn [] ''1'' [], turn [] [] ''alice''])) ''bob'' = 0"
  "unread_count db_users ''bob'' = 0"
  by code_simp+

lemma hello_parts:
  "strip (sm_message hello_request) = ''@bob hello''" "target_of ''@bob hello'' = ''bob''"
  "body_of ''@bob hello'' = ''hello''" "checkRealUsername db_users ''bob''"
  by code_simp+

theorem SendMessage_outcome_witness:
  "sm_success (fst (SendMessage t0 db_users [(''username'', ''alice'')] hello_request))
   \<and> messages (snd (SendMessage t0 db_users [(''username'', ''alice'')] hello_request))
       = [msg_of 1 ''bob'' ''alice'' ''hello'' False]
   \<and> unread_count (snd (SendMessage t0 db_users [(''username'', ''alice'')] hello_request)) ''bob'' = 1
   \<and> map observe (fst (CheckMessages (snd (SendMessage t0 db_users [(''username'', ''alice'')] hello_request))
         [turn ''bob'' [] [], turn [] ''1'' [], turn [] [] ''alice'']))
       = [([], []), ([], []), (''hello'', []), ([], [1]), ([], [1])]
   \<and> unread_count (snd (CheckMessages (snd (SendMessage t0 db_users [(''username'', ''alice'')] hello_request))
         [turn ''bob'' [] [], turn [] ''1'' [], turn [] [] ''alice''])) ''bob'' = 0"
proof -
  have "sm_success (fst (SendMessage t0 db_users [(''username'', ''alice'')] hello_request))
      \<and> unread_count (snd (SendMessage t0 db_users [(''username'', ''alice'')] hello_request)) ''bob''
          = unread_count db_users ''bob'' + 1"
    using SendMessage_outcome [where now = t0 and db = db_users and md = "[(''username'', ''alice'')]"
        and req = hello_request]
    by (simp add: hello_parts)
  moreover have "messages db_hello = [msg_of 1 ''bob'' ''alice'' ''hello'' False]"
    by (simp add: db_hello_def)
  ultimately show ?thesis
    using triage_hello by (simp add: send_hello)
qed

subsection \<open>Registered names are stripped\<close>

text \<open>
  Stripping a stripped text changes nothing, and \<open>Register\<close> stores the stripped username
  only: when every stored username is stripped and not empty before a registration, so it
  is after. A handler that strips the username of a turn therefore acts on the stored name
  whenever the turn carries one.
\<close>

lemma dropWhile_self: "xs = [] \<or> \<not> P (hd xs) \<Longrightarrow> dropWhile P xs = xs"
  by (cases xs) auto

lemma hd_strip: "strip s \<noteq> [] \<Longrightarrow> \<not> isspace (hd (strip s))"
proof -
  assume ne: "strip s \<noteq> []"
  let ?t = "dropWhile isspace s"
  have tne: "?t \<noteq> []" using ne unfolding strip_def by (metis dropWhile.simps(1) rev.simps(1))
  then have h: "\<not> isspace (hd ?t)" by (rule hd_dropWhile)
  have "\<not> isspace (last (rev ?t))" using tne h by (simp add: last_rev)
  obtain ys where ys: "dropWhile isspace (rev ?t) = ys" by simp
  have "ys \<noteq> []" using ne ys by (simp add: strip_def)
  have "\<exists>zs. rev ?t = zs @ ys" using ys by (metis takeWhile_dropWhile_id)
  then obtain zs where zs: "rev ?t = zs @ ys" by blast
  then have "last ys = last (rev ?t)" using \<open>ys \<noteq> []\<close> by simp
  then have "hd (rev ys) = hd ?t" using \<open>ys \<noteq> []\<close> tne by (simp add: hd_rev last_rev)
  then show ?thesis using h ys by (simp add: strip_def)
qed

lemma last_strip: "strip s \<noteq> [] \<Longrightarrow> \<not> isspace (last (strip s))"
proof -
  assume ne: "strip s \<noteq> []"
  then have "dropWhile isspace (rev (dropWhile isspace s)) \<noteq> []" by (simp add: strip_def)
  then have "\<not> isspace (hd (dropWhile isspace (rev (dropWhile isspace s))))" by (rule hd_dropWhile)
  then show ?thesis using ne by (simp add: strip_def last_rev)
qed

lemma strip_idem: "strip (strip s) = strip s"
proof (cases "strip s = []")
  case True
  have "strip [] = []" by (simp add: strip_def)
  then show ?thesis by (simp only: True)
next
  case False
  have a: "dropWhile isspace (strip s) = strip s"
    using hd_strip [OF False] by (intro dropWhile_self) simp
  have "rev (strip s) \<noteq> []" using False by simp
  moreover have "\<not> isspace (hd (rev (strip s)))" using last_strip [OF False] False by (simp add: hd_rev)
  ultimately have b: "dropWhile isspace (rev (strip s)) = rev (strip s)"
    by (intro dropWhile_self) simp
  show ?thesis
    by (subst strip_def) (simp add: a b)
qed


lemma Register_keeps_names_stripped:
  assumes "\<forall>v\<in>set (users db). strip (username v) = username v \<and> username v \<noteq> []"
  shows "\<forall>v\<in>set (users (snd (Register h db r))). strip (username v) = username v \<and> username v \<noteq> []"
  using assms by (auto simp: Register_def Let_def insert_user_def strip_idem)

end
